theory Spec2Isabelle
  imports
    Main
    "HOL-Library.Word"
    "HOL-Library.AList"
    "HOL-Library.Multiset"
    "HOL-Library.Char_ord"
    "HOL-Library.List_Lexorder"
begin

section \<open>dcmp: comparing two directory trees\<close>

text \<open>
  A shallow embedding of \<^verbatim>\<open>src/dcmp.py\<close> (class \<^verbatim>\<open>Dir_Compare\<close>). Python's
  exceptions are values of the type \<open>error\<close>; a method that mutates \<^verbatim>\<open>self\<close> takes the
  object and returns it updated, together with its result or the exception it raised.
\<close>

subsection \<open>Exceptions\<close>

datatype error =
    FileNotFoundError
  | NotADirectoryError
  | PermissionError
  | IsADirectoryError
  | IndexError
  | KeyError
  | ValueError
  | TypeError
  | SystemExit nat

subsection \<open>The filesystem\<close>

text \<open>
  The two trees are finite trees of regular files and directories, seen through symbolic
  links the way \<^verbatim>\<open>os.scandir\<close> sees them (\<^verbatim>\<open>is_dir()\<close>, \<^verbatim>\<open>is_file()\<close> and \<^verbatim>\<open>stat()\<close>
  follow links; \<^verbatim>\<open>is_symlink()\<close> tells whether the entry is one). A dangling link is
  neither a file nor a directory and its \<^verbatim>\<open>stat()\<close> raises. The third field of an entry
  is its modification time, the fourth says whether the process may read (a file) or list
  (a directory) it. A directory's children are listed in the order \<^verbatim>\<open>os.scandir\<close> yields
  them. Device files, sockets and cyclic links are outside the model.
\<close>

type_synonym byte = "8 word"

datatype node =
    File bool nat int bool "byte list"
  | Dir bool nat nat int bool "(string \<times> node) list"
  | Dangling

fun is_dir :: "node \<Rightarrow> bool" where
  "is_dir (Dir l m sz t r kids) = True"
| "is_dir (File l m t r bs) = False"
| "is_dir Dangling = False"

fun is_file :: "node \<Rightarrow> bool" where
  "is_file (File l m t r bs) = True"
| "is_file (Dir l m sz t r kids) = False"
| "is_file Dangling = False"

fun is_symlink :: "node \<Rightarrow> bool" where
  "is_symlink (File l m t r bs) = l"
| "is_symlink (Dir l m sz t r kids) = l"
| "is_symlink Dangling = True"

text \<open>\<^verbatim>\<open>f.stat()\<close>: the triple (\<^verbatim>\<open>st_mode\<close>, \<^verbatim>\<open>st_size\<close>, \<^verbatim>\<open>st_mtime\<close>).\<close>

fun stat :: "node \<Rightarrow> error + (nat \<times> nat \<times> int)" where
  "stat (File l m t r bs) = Inr (m, length bs, t)"
| "stat (Dir l m sz t r kids) = Inr (m, sz, t)"
| "stat Dangling = Inl FileNotFoundError"

text \<open>
  A path argument is kept together with what it resolves to: \<open>None\<close> when nothing is
  there. \<^verbatim>\<open>os.scandir(dname)\<close> opens the directory and fails at once when it cannot.
\<close>

type_synonym dref = "string \<times> node option"

fun scandir :: "node option \<Rightarrow> error + (string \<times> node) list" where
  "scandir None = Inl FileNotFoundError"
| "scandir (Some (File l m t r bs)) = Inl NotADirectoryError"
| "scandir (Some Dangling) = Inl FileNotFoundError"
| "scandir (Some (Dir l m sz t r kids)) = (if r then Inr kids else Inl PermissionError)"

text \<open>\<^verbatim>\<open>open(fname, 'rb')\<close> followed by reading: the bytes of the file.\<close>

fun open_rb :: "node option \<Rightarrow> error + byte list" where
  "open_rb None = Inl FileNotFoundError"
| "open_rb (Some Dangling) = Inl FileNotFoundError"
| "open_rb (Some (Dir l m sz t r kids)) = Inl IsADirectoryError"
| "open_rb (Some (File l m t r bs)) = (if r then Inr bs else Inl PermissionError)"

text \<open>The entry called \<open>name\<close> of a directory: what \<^verbatim>\<open>os.path.join(dname, name)\<close> resolves to.\<close>

fun child :: "node option \<Rightarrow> string \<Rightarrow> node option" where
  "child (Some (Dir l m sz t r kids)) name = map_of kids name"
| "child (Some (File l m t r bs)) name = None"
| "child (Some Dangling) name = None"
| "child None name = None"

text \<open>\<^verbatim>\<open>os.path.join\<close> and \<^verbatim>\<open>os.path.basename\<close> of \<^verbatim>\<open>posixpath\<close>, and \<^verbatim>\<open>str.split\<close>.\<close>

definition join :: "string \<Rightarrow> string \<Rightarrow> string" where
  "join a b =
     (if b \<noteq> [] \<and> hd b = CHR ''/'' then b
      else if a = [] \<or> last a = CHR ''/'' then a @ b
      else a @ ''/'' @ b)"

definition basename :: "string \<Rightarrow> string" where
  "basename p = rev (takeWhile (\<lambda>c. c \<noteq> CHR ''/'') (rev p))"

fun split :: "char \<Rightarrow> string \<Rightarrow> string list" where
  "split sep [] = [[]]"
| "split sep (c # cs) =
     (if c = sep then [] # split sep cs
      else (case split sep cs of [] \<Rightarrow> [[c]] | w # ws \<Rightarrow> (c # w) # ws))"

definition sub :: "dref \<Rightarrow> string \<Rightarrow> dref" where
  "sub d name = (join (fst d) name, child (snd d) name)"

subsection \<open>Byte-exact comparison\<close>

text \<open>
  The loop of \<^verbatim>\<open>file_cmp_exact\<close> over the two open files: \<^verbatim>\<open>read(bufsize)\<close> returns the
  next \<open>bufsize\<close> bytes, fewer at the end of the file and none after it. The second
  component of the result counts the pairs of chunks that were read.
\<close>

function file_cmp_exact_loop :: "nat \<Rightarrow> byte list \<Rightarrow> byte list \<Rightarrow> bool \<times> nat" where
  "file_cmp_exact_loop bufsize fp1 fp2 =
     (if take bufsize fp1 \<noteq> take bufsize fp2 then (False, 1)
      else if take bufsize fp1 = [] then (True, 1)
      else (case file_cmp_exact_loop bufsize (drop bufsize fp1) (drop bufsize fp2) of
              (r, k) \<Rightarrow> (r, Suc k)))"
  by pat_completeness auto
termination
proof (relation "measure (\<lambda>(bufsize, fp1, fp2). length fp1)")
  fix bufsize :: nat and fp1 fp2 :: "byte list"
  assume "take bufsize fp1 \<noteq> []"
  then have "0 < bufsize" and "fp1 \<noteq> []"
    by (cases bufsize, auto)
  then show "((bufsize, drop bufsize fp1, drop bufsize fp2), (bufsize, fp1, fp2))
      \<in> measure (\<lambda>(bufsize, fp1, fp2). length fp1)"
    by simp
qed simp

declare file_cmp_exact_loop.simps [simp del]

definition file_cmp_exact :: "nat \<Rightarrow> node option \<Rightarrow> node option \<Rightarrow> error + bool" where
  "file_cmp_exact bufsize fname1 fname2 =
     (case open_rb fname1 of
        Inl e \<Rightarrow> Inl e
      | Inr fp1 \<Rightarrow>
          (case open_rb fname2 of
             Inl e \<Rightarrow> Inl e
           | Inr fp2 \<Rightarrow> Inr (fst (file_cmp_exact_loop bufsize fp1 fp2))))"

text \<open>The \<open>j\<close>-th chunk of a file read in chunks of \<open>n\<close> bytes.\<close>

definition chunk :: "nat \<Rightarrow> nat \<Rightarrow> byte list \<Rightarrow> byte list" where
  "chunk n j xs = take n (drop (j * n) xs)"

subsection \<open>Options, library functions and the object\<close>

text \<open>
  The namespace \<^verbatim>\<open>self.args\<close> of \<^verbatim>\<open>process_cmd_line_args\<close>. An option that takes a
  value is \<open>None\<close> when it was not given; Python tests it for truth, and the empty
  string is false.
\<close>

record args =
  dname1 :: string
  dname2 :: string
  recurse :: bool
  threads :: "string option"
  exact :: bool
  ignoredate :: bool
  exdot :: bool
  exdir :: "string option"
  exfile :: "string option"
  diff :: bool
  same :: bool
  xor :: bool
  one :: bool
  two :: bool
  pgm :: "string option"
  html :: bool
  stats :: bool
  verbose :: bool

fun truthy :: "string option \<Rightarrow> bool" where
  "truthy None = False"
| "truthy (Some v) = (v \<noteq> [])"

text \<open>
  A compiled regular expression is known by its \<^verbatim>\<open>findall\<close>. What the program takes from
  Python's library is a parameter: \<^verbatim>\<open>re.compile(regexpr, re.I)\<close> (\<open>None\<close> when it raises),
  \<^verbatim>\<open>"{:,}".format\<close>, \<^verbatim>\<open>time.localtime\<close> (a \<^verbatim>\<open>struct_time\<close> is a tuple of integers,
  compared lexicographically), \<^verbatim>\<open>time.strftime(self.date_time_fmt, _)\<close>, \<^verbatim>\<open>int\<close> on a string
  (\<open>None\<close> when it raises) and \<^verbatim>\<open>io.DEFAULT_BUFFER_SIZE\<close>.
\<close>

type_synonym regex = "string \<Rightarrow> string list"

record lib =
  re_compile_I :: "string \<Rightarrow> regex option"
  format_size :: "nat \<Rightarrow> string"
  localtime :: "int \<Rightarrow> int list"
  strftime :: "int list \<Rightarrow> string"
  int_of_str :: "string \<Rightarrow> int option"
  DEFAULT_BUFFER_SIZE :: nat

text \<open>
  A row of the table: \<^verbatim>\<open>fname\<close>, \<^verbatim>\<open>same meta\<close> (a truth value, or the text
  \<^verbatim>\<open>Only in 1\<close> / \<^verbatim>\<open>Only in 2\<close>), the two sizes and the two dates as displayed, and
  \<^verbatim>\<open>exact data\<close> (a truth value, or the empty string when the contents were not compared).
\<close>

datatype meta_cell = Meta bool | OnlyIn nat

datatype exact_cell = NotCompared | Compared bool

type_synonym row = "string \<times> meta_cell \<times> string \<times> string \<times> string \<times> string \<times> exact_cell"

text \<open>The tuple stored in \<^verbatim>\<open>d1\<close> and \<^verbatim>\<open>d2\<close> for an entry, indexed 0 to 5 in the source.\<close>

type_synonym meta = "bool \<times> bool \<times> bool \<times> nat \<times> nat \<times> int"

fun m_is_dir :: "meta \<Rightarrow> bool" where
  "m_is_dir (d, f, l, mode, sz, t) = d"

fun m_size :: "meta \<Rightarrow> nat" where
  "m_size (d, f, l, mode, sz, t) = sz"

fun m_mtime :: "meta \<Rightarrow> int" where
  "m_mtime (d, f, l, mode, sz, t) = t"

text \<open>
  The object. \<^verbatim>\<open>file_stats\<close> is a \<^verbatim>\<open>defaultdict(int)\<close>: every key is there, at 0 until
  it is counted. \<open>stderr\<close> holds the lines printed there and \<open>outputs\<close> the calls of
  \<^verbatim>\<open>output\<close> (a table and the two directory names), in order.
\<close>

record self =
  args :: args
  file_cmp_bufsize :: nat
  skip_directories :: "string list"
  skip_files :: "string list"
  re_skip_directories :: "regex list"
  re_skip_files :: "regex list"
  max_workers :: int
  all_twins :: "(dref \<times> dref) list"
  dir_queue :: "(dref \<times> dref) list"
  file_stats :: "string \<Rightarrow> nat"
  output_files :: "(string \<times> string) list"
  stderr :: "string list"
  outputs :: "(row list \<times> string \<times> string) list"

subsection \<open>Which rows are shown\<close>

definition should_add_row :: "self \<Rightarrow> bool \<Rightarrow> bool \<Rightarrow> bool \<Rightarrow> bool" where
  "should_add_row s same_meta same_data are_both_dirs =
     (if \<not> diff (args s) \<and> \<not> same (args s) then True
      else if same (args s) \<and> \<not> exact (args s) \<and> same_meta then True
      else if same (args s) \<and> exact (args s) \<and> same_meta \<and> same_data then True
      else if diff (args s) \<and> \<not> exact (args s) \<and> \<not> same_meta then True
      else if diff (args s) \<and> exact (args s) \<and> \<not> same_data then
        (if are_both_dirs then False else True)
      else if diff (args s) \<and> exact (args s) \<and> \<not> same_meta then True
      else False)"

subsection \<open>The exclusion filter\<close>

fun in_exclusion_list :: "string \<Rightarrow> regex list \<Rightarrow> bool" where
  "in_exclusion_list fname [] = False"
| "in_exclusion_list fname (skip # re_list) =
     (if skip fname \<noteq> [] then True else in_exclusion_list fname re_list)"

text \<open>\<^verbatim>\<open>obj_name[0]\<close> raises on the empty string, and is only looked at under \<^verbatim>\<open>--exdot\<close>.\<close>

definition should_not_exclude :: "self \<Rightarrow> string \<Rightarrow> bool \<Rightarrow> bool \<Rightarrow> error + bool" where
  "should_not_exclude s obj_name isfile isdir =
     (if exdot (args s) \<and> obj_name = [] then Inl IndexError
      else if exdot (args s) \<and> hd obj_name = CHR ''.'' then Inr False
      else if isfile \<and> truthy (exfile (args s)) then
        Inr (\<not> in_exclusion_list obj_name (re_skip_files s))
      else if isdir \<and> truthy (exdir (args s)) then
        Inr (\<not> in_exclusion_list obj_name (re_skip_directories s))
      else Inr True)"

text \<open>
  The part of \<^verbatim>\<open>__init__\<close> that builds the exclusion lists: the patterns of \<^verbatim>\<open>--exdir\<close> and
  \<^verbatim>\<open>--exfile\<close>, split at \<^verbatim>\<open>;\<close>, are added to the lists and every member is compiled. A
  pattern that does not compile ends the program with status 141 or 142.
\<close>

fun compile_all :: "lib \<Rightarrow> nat \<Rightarrow> string list \<Rightarrow> regex list \<Rightarrow> error + regex list" where
  "compile_all L code [] acc = Inr acc"
| "compile_all L code (regexpr # rest) acc =
     (case re_compile_I L regexpr of
        None \<Rightarrow> Inl (SystemExit code)
      | Some rx \<Rightarrow> compile_all L code rest (acc @ [rx]))"

definition init_exdir :: "lib \<Rightarrow> self \<Rightarrow> error + self" where
  "init_exdir L s =
     (case exdir (args s) of
        None \<Rightarrow> Inr s
      | Some v \<Rightarrow>
          if v = [] then Inr s
          else
            (let sd = skip_directories s @ split CHR '';'' v in
             case compile_all L 141 sd (re_skip_directories s) of
               Inl e \<Rightarrow> Inl e
             | Inr rs \<Rightarrow> Inr (s\<lparr>skip_directories := sd, re_skip_directories := rs\<rparr>)))"

definition init_exfile :: "lib \<Rightarrow> self \<Rightarrow> error + self" where
  "init_exfile L s =
     (case exfile (args s) of
        None \<Rightarrow> Inr s
      | Some v \<Rightarrow>
          if v = [] then Inr s
          else
            (let sf = skip_files s @ split CHR '';'' v in
             case compile_all L 142 sf (re_skip_files s) of
               Inl e \<Rightarrow> Inl e
             | Inr rs \<Rightarrow> Inr (s\<lparr>skip_files := sf, re_skip_files := rs\<rparr>)))"

text \<open>The object as the class declares it, before \<^verbatim>\<open>__init__\<close> has run.\<close>

definition new_self :: "lib \<Rightarrow> args \<Rightarrow> self" where
  "new_self L a =
     \<lparr>args = a, file_cmp_bufsize = DEFAULT_BUFFER_SIZE L,
      skip_directories = [], skip_files = [],
      re_skip_directories = [], re_skip_files = [],
      max_workers = 1, all_twins = [], dir_queue = [],
      file_stats = (\<lambda>k. 0), output_files = [], stderr = [], outputs = []\<rparr>"

text \<open>Both lists are built in turn, from the object as the class declares it.\<close>

definition init_filters :: "lib \<Rightarrow> args \<Rightarrow> error + self" where
  "init_filters L a =
     (case init_exdir L (new_self L a) of
        Inl e \<Rightarrow> Inl e
      | Inr s1 \<Rightarrow> init_exfile L s1)"

subsection \<open>Scanning a directory\<close>

text \<open>
  The loop of \<^verbatim>\<open>dir_cmp\<close> over \<^verbatim>\<open>os.scandir(dname)\<close> that fills the dictionary \<^verbatim>\<open>d1\<close>
  (or \<^verbatim>\<open>d2\<close>): an association list in insertion order, where assigning to a key that is
  there replaces its value.
\<close>

definition excluded_msg :: "string \<Rightarrow> string \<Rightarrow> node \<Rightarrow> string" where
  "excluded_msg dname name f =
     ''Excluded '' @ (if is_file f then ''file'' else ''directory'') @ '': '' @ join dname name"

fun scan :: "self \<Rightarrow> string \<Rightarrow> (string \<times> node) list \<Rightarrow> (string \<times> meta) list
    \<Rightarrow> (error + (string \<times> meta) list) \<times> self" where
  "scan s dname [] d = (Inr d, s)"
| "scan s dname ((name, f) # rest) d =
     (case should_not_exclude s name (is_file f) (is_dir f) of
        Inl e \<Rightarrow> (Inl e, s)
      | Inr keep \<Rightarrow>
          if keep then
            (case stat f of
               Inl e \<Rightarrow> (Inl e, s)
             | Inr (mode, sz, t) \<Rightarrow>
                 scan s dname rest
                  (AList.update name
                    (is_dir f, is_file f, is_symlink f, mode, sz,
                     if \<not> ignoredate (args s) then t else 0) d))
          else if verbose (args s) then
            scan (s\<lparr>stderr := stderr s @ [excluded_msg dname name f]\<rparr>) dname rest d
          else scan s dname rest d)"

subsection \<open>The three sets of names\<close>

text \<open>\<^verbatim>\<open>set(d)\<close> is the set of the keys of a dictionary.\<close>

definition keys :: "(string \<times> meta) list \<Rightarrow> string set" where
  "keys d = fst ` set d"

definition same_fnames :: "(string \<times> meta) list \<Rightarrow> (string \<times> meta) list \<Rightarrow> string set" where
  "same_fnames d1 d2 = keys d1 \<inter> keys d2"

definition d1_only :: "(string \<times> meta) list \<Rightarrow> (string \<times> meta) list \<Rightarrow> string set" where
  "d1_only d1 d2 = keys d1 - keys d2"

definition d2_only :: "(string \<times> meta) list \<Rightarrow> (string \<times> meta) list \<Rightarrow> string set" where
  "d2_only d1 d2 = keys d2 - keys d1"

subsection \<open>Rows for names on one side only\<close>

text \<open>
  Python leaves the order in which a set is iterated open; the model iterates in the
  order of the names. Only the rows as a multiset, and the counters, are independent of
  that choice.
\<close>

definition display_time :: "nat \<Rightarrow> string \<Rightarrow> string \<times> string" where
  "display_time meta_val v = (if meta_val = 1 then (v, []) else ([], v))"

fun add_exclusive_rows :: "lib \<Rightarrow> string list \<Rightarrow> (string \<times> meta) list \<Rightarrow> nat
    \<Rightarrow> row list \<Rightarrow> error + row list" where
  "add_exclusive_rows L [] d meta_val x = Inr x"
| "add_exclusive_rows L (fname # rest) d meta_val x =
     (case map_of d fname of
        None \<Rightarrow> Inl KeyError
      | Some m \<Rightarrow>
          (let fname_fulldate = strftime L (localtime L (m_mtime m));
               file_sz = (if \<not> m_is_dir m then format_size L (m_size m) else ''<DIR>'')
           in add_exclusive_rows L rest d meta_val
                (x @ [(fname, OnlyIn meta_val,
                       fst (display_time meta_val file_sz), snd (display_time meta_val file_sz),
                       fst (display_time meta_val fname_fulldate),
                       snd (display_time meta_val fname_fulldate), NotCompared)])))"

definition add_exclusive_file :: "lib \<Rightarrow> string set \<Rightarrow> (string \<times> meta) list \<Rightarrow> nat
    \<Rightarrow> row list \<Rightarrow> error + row list" where
  "add_exclusive_file L exclusive d meta_val x =
     add_exclusive_rows L (sorted_list_of_set exclusive) d meta_val x"

subsection \<open>Comparing a name that is on both sides\<close>

text \<open>The sizes and dates as displayed, with \<^verbatim>\<open>*\<close> at the larger size and the newer date.\<close>

definition size_cells :: "lib \<Rightarrow> meta \<Rightarrow> meta \<Rightarrow> string \<times> string" where
  "size_cells L m1 m2 =
     (let f1_sz = format_size L (m_size m1);
          f2_sz = format_size L (m_size m2);
          f2_sz' = (if m1 \<noteq> m2 \<and> m_size m1 < m_size m2 then ''* '' @ f2_sz else f2_sz);
          f1_sz' = (if m1 \<noteq> m2 \<and> \<not> m_size m1 < m_size m2 \<and> m_size m1 > m_size m2
                    then ''* '' @ f1_sz else f1_sz)
      in (if m_is_dir m1 then ''<DIR>'' else f1_sz',
          if m_is_dir m2 then ''<DIR>'' else f2_sz'))"

definition date_cells :: "lib \<Rightarrow> self \<Rightarrow> meta \<Rightarrow> meta \<Rightarrow> string \<times> string" where
  "date_cells L s m1 m2 =
     (if \<not> ignoredate (args s) then
        (let fname_time_1 = localtime L (m_mtime m1);
             fname_fulldate_1 = strftime L fname_time_1;
             fname_time_2 = localtime L (m_mtime m2);
             fname_fulldate_2 = strftime L fname_time_2
         in if m1 \<noteq> m2 then
              (if fname_time_1 < fname_time_2 then (fname_fulldate_1, ''* '' @ fname_fulldate_2)
               else if fname_time_1 > fname_time_2 then (''* '' @ fname_fulldate_1, fname_fulldate_2)
               else (fname_fulldate_1, fname_fulldate_2))
            else (fname_fulldate_1, fname_fulldate_2))
      else ([], []))"

text \<open>Python's truth of the cell \<^verbatim>\<open>exact data\<close>: the empty string and \<^verbatim>\<open>False\<close> are false.\<close>

fun cell_true :: "exact_cell \<Rightarrow> bool" where
  "cell_true NotCompared = False"
| "cell_true (Compared b) = b"

definition incr :: "string \<Rightarrow> (string \<Rightarrow> nat) \<Rightarrow> (string \<Rightarrow> nat)" where
  "incr k fs = fs(k := fs k + 1)"

text \<open>The counting at the end of the loop body (under \<^verbatim>\<open>--stats\<close>, not for two directories).\<close>

definition count_stats :: "bool \<Rightarrow> exact_cell \<Rightarrow> (string \<Rightarrow> nat) \<Rightarrow> (string \<Rightarrow> nat)" where
  "count_stats same_meta exact_data fs =
     (let fs' = (if same_meta \<and> \<not> cell_true exact_data then incr ''same_meta_different_data'' fs
                 else if same_meta then incr ''same_meta'' fs
                 else incr ''not_same_meta'' fs)
      in if cell_true exact_data then incr ''exact_data'' fs'
         else incr ''not_exact_data'' fs')"

text \<open>
  The contents are compared under \<^verbatim>\<open>--exact\<close> when the left entry is not a directory:
  \<^verbatim>\<open>if self.args.exact and not d1[fname][0]\<close>. The result is the pair of \<^verbatim>\<open>same_data\<close>
  and \<^verbatim>\<open>performed_exact_file_cmp[fname]\<close>.
\<close>

definition exact_step :: "self \<Rightarrow> dref \<Rightarrow> dref \<Rightarrow> meta \<Rightarrow> string \<Rightarrow> error + (bool \<times> exact_cell)" where
  "exact_step s dir1 dir2 m1 fname =
     (if exact (args s) \<and> \<not> m_is_dir m1 then
        (case file_cmp_exact (file_cmp_bufsize s) (snd (sub dir1 fname)) (snd (sub dir2 fname)) of
           Inl e \<Rightarrow> Inl e
         | Inr same_data \<Rightarrow> Inr (same_data, Compared same_data))
      else Inr (False, NotCompared))"

text \<open>The body of the loop \<^verbatim>\<open>for fname in same_fnames\<close>, on the table \<open>x\<close> and the object.\<close>

definition compare_common :: "lib \<Rightarrow> dref \<Rightarrow> dref \<Rightarrow> (string \<times> meta) list \<Rightarrow> (string \<times> meta) list
    \<Rightarrow> string \<Rightarrow> row list \<Rightarrow> self \<Rightarrow> (error + row list) \<times> self" where
  "compare_common L dir1 dir2 d1 d2 fname x s =
     (case map_of d1 fname of
        None \<Rightarrow> (Inl KeyError, s)
      | Some m1 \<Rightarrow>
     (case map_of d2 fname of
        None \<Rightarrow> (Inl KeyError, s)
      | Some m2 \<Rightarrow>
          if recurse (args s) \<and> m_is_dir m1 \<and> m_is_dir m2 then
            (Inr x, s\<lparr>dir_queue := dir_queue s @ [(sub dir1 fname, sub dir2 fname)]\<rparr>)
          else if xor (args s) \<or> one (args s) \<or> two (args s) then (Inr x, s)
          else
            (case exact_step s dir1 dir2 m1 fname of
               Inl e \<Rightarrow> (Inl e, s)
             | Inr (same_data, exact_data) \<Rightarrow>
                 (let same_meta = (m1 = m2);
                      are_both_dirs = (m_is_dir m1 \<and> m_is_dir m2)
                  in if should_add_row s same_meta same_data are_both_dirs then
                       (let x' = x @ [(fname, Meta same_meta,
                                       fst (size_cells L m1 m2), snd (size_cells L m1 m2),
                                       fst (date_cells L s m1 m2), snd (date_cells L s m1 m2),
                                       exact_data)];
                            s1 = (if truthy (pgm (args s))
                                  then s\<lparr>output_files := output_files s
                                         @ [(join (fst dir1) fname, join (fst dir2) fname)]\<rparr>
                                  else s);
                            s2 = (if stats (args s) \<and> \<not> are_both_dirs
                                  then s1\<lparr>file_stats := count_stats same_meta exact_data (file_stats s1)\<rparr>
                                  else s1)
                        in (Inr x', s2))
                     else (Inr x, s)))))"

fun common_loop :: "lib \<Rightarrow> dref \<Rightarrow> dref \<Rightarrow> (string \<times> meta) list \<Rightarrow> (string \<times> meta) list
    \<Rightarrow> string list \<Rightarrow> row list \<Rightarrow> self \<Rightarrow> (error + row list) \<times> self" where
  "common_loop L dir1 dir2 d1 d2 [] x s = (Inr x, s)"
| "common_loop L dir1 dir2 d1 d2 (fname # rest) x s =
     (case compare_common L dir1 dir2 d1 d2 fname x s of
        (Inl e, s') \<Rightarrow> (Inl e, s')
      | (Inr x', s') \<Rightarrow> common_loop L dir1 dir2 d1 d2 rest x' s')"

subsection \<open>Comparing two directories\<close>

text \<open>
  \<^verbatim>\<open>dir_cmp\<close> returns the table alone when the last component of one of the names is in
  \<^verbatim>\<open>skip_directories\<close>, and the table with the two names otherwise.
\<close>

datatype dir_cmp_result = Table "row list" | Triple "row list" string string

definition exclusive_rows :: "lib \<Rightarrow> self \<Rightarrow> (string \<times> meta) list \<Rightarrow> (string \<times> meta) list
    \<Rightarrow> row list \<Rightarrow> error + row list" where
  "exclusive_rows L s d1 d2 x =
     (if one (args s) then add_exclusive_file L (d1_only d1 d2) d1 1 x
      else if two (args s) then add_exclusive_file L (d2_only d1 d2) d2 2 x
      else if \<not> same (args s) then
        (case add_exclusive_file L (d1_only d1 d2) d1 1 x of
           Inl e \<Rightarrow> Inl e
         | Inr x' \<Rightarrow> add_exclusive_file L (d2_only d1 d2) d2 2 x')
      else Inr x)"

definition dir_cmp :: "lib \<Rightarrow> self \<Rightarrow> dref \<Rightarrow> dref \<Rightarrow> (error + dir_cmp_result) \<times> self" where
  "dir_cmp L s dir1 dir2 =
     (if basename (fst dir1) \<in> set (skip_directories s) then (Inr (Table []), s)
      else if basename (fst dir2) \<in> set (skip_directories s) then (Inr (Table []), s)
      else
        (case scandir (snd dir1) of
           Inl e \<Rightarrow> (Inl e, s)
         | Inr entries1 \<Rightarrow>
        (case scan s (fst dir1) entries1 [] of
           (Inl e, s1) \<Rightarrow> (Inl e, s1)
         | (Inr d1, s1) \<Rightarrow>
        (case scandir (snd dir2) of
           Inl e \<Rightarrow> (Inl e, s1)
         | Inr entries2 \<Rightarrow>
        (case scan s1 (fst dir2) entries2 [] of
           (Inl e, s2) \<Rightarrow> (Inl e, s2)
         | (Inr d2, s2) \<Rightarrow>
        (case exclusive_rows L s2 d1 d2 [] of
           Inl e \<Rightarrow> (Inl e, s2)
         | Inr x \<Rightarrow>
        (case common_loop L dir1 dir2 d1 d2 (sorted_list_of_set (same_fnames d1 d2)) x s2 of
           (Inl e, s3) \<Rightarrow> (Inl e, s3)
         | (Inr x', s3) \<Rightarrow> (Inr (Triple x' (fst dir1) (fst dir2)), s3))))))))"

subsection \<open>Finding the twins\<close>

text \<open>
  The size of what a path resolves to: it gets smaller from a directory that can be
  listed to each of its entries, which is why the recursions over the tree end.
\<close>

fun msize :: "node option \<Rightarrow> nat" where
  "msize None = 0"
| "msize (Some n) = Suc (size n)"

lemma size_map_of: "map_of kids name = Some c \<Longrightarrow> size c < Suc (size_list (size_prod (\<lambda>_. 0) size) kids)"
  by (induction kids) (auto split: if_splits)

lemma msize_child: "scandir n = Inr es \<Longrightarrow> msize (child n name) < msize n"
proof (cases n rule: scandir.cases)
  case (4 l m sz t r kids)
  then show ?thesis
    by (cases "map_of kids name") (auto dest: size_map_of)
qed auto

text \<open>
  \<^verbatim>\<open>gen_folder\<close> is the set of the names of the subdirectories of a directory. A
  \<^verbatim>\<open>for\<close> loop whose body may raise: the first exception ends it, otherwise what the
  bodies appended is collected in order.
\<close>

definition gen_folder :: "node option \<Rightarrow> error + string set" where
  "gen_folder dname =
     (case scandir dname of
        Inl e \<Rightarrow> Inl e
      | Inr entries \<Rightarrow> Inr (set (map fst (filter (\<lambda>f. is_dir (snd f)) entries))))"

fun for_each :: "'a list \<Rightarrow> ('a \<Rightarrow> error + 'b list) \<Rightarrow> error + 'b list" where
  "for_each [] body = Inr []"
| "for_each (d # ds) body =
     (case body d of
        Inl e \<Rightarrow> Inl e
      | Inr ts \<Rightarrow> (case for_each ds body of Inl e \<Rightarrow> Inl e | Inr us \<Rightarrow> Inr (ts @ us)))"

lemma for_each_cong [fundef_cong]:
  "ds = ds' \<Longrightarrow> (\<And>d. d \<in> set ds' \<Longrightarrow> body d = body' d) \<Longrightarrow> for_each ds body = for_each ds' body'"
  by (induction ds arbitrary: ds') (auto split: sum.splits)

text \<open>
  \<^verbatim>\<open>find_all_twins\<close> returns what it appended to \<^verbatim>\<open>self.all_twins\<close>, each pair before
  the pairs found below it.
\<close>

function find_all_twins :: "dref \<Rightarrow> dref \<Rightarrow> error + (dref \<times> dref) list" where
  "find_all_twins dir1 dir2 =
     (case gen_folder (snd dir1) of
        Inl e \<Rightarrow> Inl e
      | Inr g1 \<Rightarrow>
     (case gen_folder (snd dir2) of
        Inl e \<Rightarrow> Inl e
      | Inr g2 \<Rightarrow>
          for_each (sorted_list_of_set (g1 \<inter> g2))
            (\<lambda>d. case find_all_twins (sub dir1 d) (sub dir2 d) of
                   Inl e \<Rightarrow> Inl e
                 | Inr ts \<Rightarrow> Inr ((sub dir1 d, sub dir2 d) # ts))))"
  by pat_completeness auto
termination
proof (relation "measure (\<lambda>(dir1, dir2). msize (snd dir1))")
  fix dir1 dir2 :: dref and g1 g2 d
  assume "gen_folder (snd dir1) = Inr g1"
  then obtain es where "scandir (snd dir1) = Inr es"
    by (auto simp: gen_folder_def split: sum.splits)
  then have "msize (child (snd dir1) d) < msize (snd dir1)"
    by (rule msize_child)
  then show "((sub dir1 d, sub dir2 d), (dir1, dir2)) \<in> measure (\<lambda>(dir1, dir2). msize (snd dir1))"
    by (simp add: sub_def)
qed simp

subsection \<open>The queue of \<^verbatim>\<open>dir_cmp\<close>\<close>

text \<open>
  \<^verbatim>\<open>dir_cmp\<close> only ever adds to the queue, and what it adds are entries of its first
  directory.
\<close>

declare find_all_twins.simps [simp del]

lemma scan_queue: "scan s dname es d = (r, s') \<Longrightarrow> dir_queue s' = dir_queue s"
  by (induction s dname es d rule: scan.induct) (auto split: sum.splits if_splits prod.splits)

lemma compare_common_queue:
  assumes "compare_common L dir1 dir2 d1 d2 fname x s = (r, s')"
  shows "dir_queue s' = dir_queue s \<or> dir_queue s' = dir_queue s @ [(sub dir1 fname, sub dir2 fname)]"
  using assms
  by (auto simp: compare_common_def Let_def split: option.splits if_splits sum.splits prod.splits)

lemma common_loop_queue:
  "common_loop L dir1 dir2 d1 d2 names x s = (r, s') \<Longrightarrow>
   \<exists>new. dir_queue s' = dir_queue s @ new \<and> (\<forall>p \<in> set new. \<exists>fname. p = (sub dir1 fname, sub dir2 fname))"
proof (induction names arbitrary: x s)
  case Nil
  then show ?case by simp
next
  case (Cons fname rest)
  obtain r1 s1 where c: "compare_common L dir1 dir2 d1 d2 fname x s = (r1, s1)"
    by (cases "compare_common L dir1 dir2 d1 d2 fname x s")
  from compare_common_queue [OF c]
  obtain n1 where n1: "dir_queue s1 = dir_queue s @ n1"
    "\<forall>p \<in> set n1. \<exists>fname. p = (sub dir1 fname, sub dir2 fname)"
    by (metis append_Nil2 empty_iff empty_set set_ConsD)
  show ?case
  proof (cases r1)
    case (Inl e)
    with Cons.prems c have "s' = s1" by simp
    with n1 show ?thesis by blast
  next
    case (Inr x')
    with Cons.prems c have "common_loop L dir1 dir2 d1 d2 rest x' s1 = (r, s')" by simp
    from Cons.IH [OF this] obtain n2 where n2: "dir_queue s' = dir_queue s1 @ n2"
      "\<forall>p \<in> set n2. \<exists>fname. p = (sub dir1 fname, sub dir2 fname)" by blast
    from n1 n2 have "dir_queue s' = dir_queue s @ (n1 @ n2)" by simp
    moreover from n1 n2 have "\<forall>p \<in> set (n1 @ n2). \<exists>fname. p = (sub dir1 fname, sub dir2 fname)"
      by auto
    ultimately show ?thesis by blast
  qed
qed

lemma dir_cmp_queue:
  assumes "dir_cmp L s dir1 dir2 = (r, s')"
  shows "\<exists>new. dir_queue s' = dir_queue s @ new
     \<and> (\<forall>p \<in> set new. msize (snd (fst p)) < msize (snd dir1))"
proof (cases "basename (fst dir1) \<in> set (skip_directories s) \<or> basename (fst dir2) \<in> set (skip_directories s)")
  case True
  with assms have "s' = s" by (auto simp: dir_cmp_def split: if_splits)
  then show ?thesis by simp
next
  case False
  show ?thesis
  proof (cases "scandir (snd dir1)")
    case (Inl e)
    with False assms have "s' = s" by (simp add: dir_cmp_def)
    then show ?thesis by simp
  next
    case (Inr es1)
    then have small: "\<And>fname. msize (snd (sub dir1 fname)) < msize (snd dir1)"
      by (simp add: sub_def msize_child)
    obtain r1 s1 where sc1: "scan s (fst dir1) es1 [] = (r1, s1)"
      by (cases "scan s (fst dir1) es1 []")
    then have q1: "dir_queue s1 = dir_queue s" by (rule scan_queue)
    show ?thesis
    proof (cases r1)
      case (Inl e)
      with False Inr sc1 assms have "s' = s1" by (simp add: dir_cmp_def)
      with q1 show ?thesis by simp
    next
      case d1: (Inr d1)
      show ?thesis
      proof (cases "scandir (snd dir2)")
        case (Inl e)
        with False Inr sc1 d1 assms have "s' = s1" by (simp add: dir_cmp_def)
        with q1 show ?thesis by simp
      next
        case es2: (Inr es2)
        obtain r2 s2 where sc2: "scan s1 (fst dir2) es2 [] = (r2, s2)"
          by (cases "scan s1 (fst dir2) es2 []")
        then have q2: "dir_queue s2 = dir_queue s1" by (rule scan_queue)
        show ?thesis
        proof (cases r2)
          case (Inl e)
          with False Inr sc1 d1 es2 sc2 assms have "s' = s2" by (simp add: dir_cmp_def)
          with q1 q2 show ?thesis by simp
        next
          case d2: (Inr d2)
          show ?thesis
          proof (cases "exclusive_rows L s2 d1 d2 []")
            case (Inl e)
            with False Inr sc1 d1 es2 sc2 d2 assms have "s' = s2" by (simp add: dir_cmp_def)
            with q1 q2 show ?thesis by simp
          next
            case x: (Inr x)
            obtain r3 s3 where cl: "common_loop L dir1 dir2 d1 d2 (sorted_list_of_set (same_fnames d1 d2)) x s2 = (r3, s3)"
              by (cases "common_loop L dir1 dir2 d1 d2 (sorted_list_of_set (same_fnames d1 d2)) x s2")
            with False Inr sc1 d1 es2 sc2 d2 x assms have "s' = s3"
              by (auto simp: dir_cmp_def split: sum.splits)
            moreover from common_loop_queue [OF cl] obtain new where
              "dir_queue s3 = dir_queue s2 @ new" "\<forall>p \<in> set new. \<exists>fname. p = (sub dir1 fname, sub dir2 fname)"
              by blast
            ultimately show ?thesis using q1 q2 small by fastforce
          qed
        qed
      qed
    qed
  qed
qed

subsection \<open>The two ways through the tree\<close>

text \<open>
  Without \<^verbatim>\<open>--threads\<close>, \<^verbatim>\<open>__init__\<close> takes pairs from the queue until it is empty; each
  \<^verbatim>\<open>dir_cmp\<close> may add pairs. Unpacking the result of \<^verbatim>\<open>dir_cmp\<close> into three names raises
  when it is the table alone. The multiset of the sizes of the queued directories gets
  smaller with every pair taken.
\<close>

definition queue_sizes :: "self \<Rightarrow> nat multiset" where
  "queue_sizes s = mset (map (\<lambda>twins. msize (snd (fst twins))) (dir_queue s))"

function seq_loop :: "lib \<Rightarrow> self \<Rightarrow> (error + unit) \<times> self" where
  "seq_loop L s =
     (case dir_queue s of
        [] \<Rightarrow> (Inr (), s)
      | twins # q \<Rightarrow>
          (case dir_cmp L (s\<lparr>dir_queue := q\<rparr>) (fst twins) (snd twins) of
             (Inl e, s') \<Rightarrow> (Inl e, s')
           | (Inr (Table x), s') \<Rightarrow> (Inl ValueError, s')
           | (Inr (Triple tbl dir1 dir2), s') \<Rightarrow>
               seq_loop L (s'\<lparr>outputs := outputs s' @ [(tbl, fst (fst twins), fst (snd twins))]\<rparr>)))"
  by pat_completeness auto
termination
proof (relation "inv_image (mult {(a, b). a < b}) (\<lambda>(L, s). queue_sizes s)")
  show "wf (inv_image (mult {(a::nat, b). a < b}) (\<lambda>(L, s). queue_sizes s))"
    by (intro wf_inv_image wf_mult wf_less)
next
  fix L :: lib and s s' :: self and twins q r tbl dir1 dir2
  assume q: "dir_queue s = twins # q"
    and c: "(r, s') = dir_cmp L (s\<lparr>dir_queue := q\<rparr>) (fst twins) (snd twins)"
  from dir_cmp_queue [OF c [symmetric]] obtain new where
    new: "dir_queue s' = q @ new" "\<forall>p \<in> set new. msize (snd (fst p)) < msize (snd (fst twins))"
    by auto
  let ?f = "\<lambda>twins :: dref \<times> dref. msize (snd (fst twins))"
  have "(mset (map ?f q) + mset (map ?f new), mset (map ?f q) + {#?f twins#}) \<in> mult {(a, b). a < b}"
    by (rule one_step_implies_mult) (use new(2) in auto)
  then show "((L, s'\<lparr>outputs := outputs s' @ [(tbl, fst (fst twins), fst (snd twins))]\<rparr>), (L, s))
      \<in> inv_image (mult {(a, b). a < b}) (\<lambda>(L, s). queue_sizes s)"
    using q new(1) by (simp add: queue_sizes_def)
qed

declare seq_loop.simps [simp del]

text \<open>
  With \<^verbatim>\<open>--threads\<close>, one task per pair of \<^verbatim>\<open>all_twins\<close> is given to the pool:
  \<^verbatim>\<open>executor.submit(self.dir_cmp, *twins)\<close>. To reach a worker process the bound method is
  pickled, and with it the object; its \<^verbatim>\<open>dir_queue\<close> is the \<^verbatim>\<open>queue.Queue\<close> that \<^verbatim>\<open>__init__\<close>
  made, which holds a lock and cannot be pickled. So no worker runs \<^verbatim>\<open>dir_cmp\<close>: every
  future holds a \<^verbatim>\<open>TypeError\<close>, \<^verbatim>\<open>future.result()\<close> raises it in \<^verbatim>\<open>__init__\<close>, and
  \<^verbatim>\<open>output\<close> is not called. Where there is no pair there is no future, and the loop over
  the finished futures ends at once.
\<close>

fun pool_map :: "self \<Rightarrow> (dref \<times> dref) list \<Rightarrow> (error + unit) \<times> self" where
  "pool_map s [] = (Inr (), s)"
| "pool_map s (twins # rest) = (Inl TypeError, s)"

text \<open>\<^verbatim>\<open>__init__\<close>, from the parsed options and the two trees the names resolve to.\<close>

definition init_threads :: "lib \<Rightarrow> self \<Rightarrow> error + self" where
  "init_threads L s =
     (case threads (args s) of
        None \<Rightarrow> Inr s
      | Some v \<Rightarrow>
          if v = [] then Inr s
          else
            (case int_of_str L v of
               None \<Rightarrow> Inl ValueError
             | Some n \<Rightarrow> if n \<le> 0 then Inl (SystemExit 1) else Inr (s\<lparr>max_workers := n\<rparr>)))"

definition init :: "lib \<Rightarrow> args \<Rightarrow> node option \<Rightarrow> node option \<Rightarrow> (error + unit) \<times> self" where
  "init L a root1 root2 =
     (case init_filters L a of
        Inl e \<Rightarrow> (Inl e, new_self L a)
      | Inr s2 \<Rightarrow>
     (case init_threads L s2 of
        Inl e \<Rightarrow> (Inl e, s2)
      | Inr s3 \<Rightarrow>
     (case dir_cmp L s3 (dname1 a, root1) (dname2 a, root2) of
        (Inl e, s4) \<Rightarrow> (Inl e, s4)
      | (Inr (Table x), s4) \<Rightarrow> (Inl ValueError, s4)
      | (Inr (Triple tbl dir1 dir2), s4) \<Rightarrow>
          (let s5 = s4\<lparr>outputs := outputs s4 @ [(tbl, dname1 a, dname2 a)]\<rparr> in
           if recurse a \<and> \<not> truthy (threads a) then seq_loop L s5
           else if recurse a \<and> truthy (threads a) then
             (case find_all_twins (dname1 a, root1) (dname2 a, root2) of
                Inl e \<Rightarrow> (Inl e, s5)
              | Inr tw \<Rightarrow> pool_map (s5\<lparr>all_twins := all_twins s5 @ tw\<rparr>) (all_twins s5 @ tw))
           else (Inr (), s5)))))"

text \<open>All rows that were handed to \<^verbatim>\<open>output\<close>.\<close>

definition rows :: "self \<Rightarrow> row list" where
  "rows s = concat (map fst (outputs s))"

section \<open>What the claims are stated with\<close>

text \<open>
  The strings the options \<^verbatim>\<open>--exdir\<close> and \<^verbatim>\<open>--exfile\<close> configure as patterns.
\<close>

fun configured_patterns :: "string option \<Rightarrow> string list" where
  "configured_patterns None = []"
| "configured_patterns (Some v) = (if v = [] then [] else split CHR '';'' v)"

text \<open>
  A relative path, as the list of its names, resolved from a directory; whether it leads
  to a directory; and a tree in which every directory can be listed and holds every
  name once. A twin path is a relative path that leads to a directory on both sides.
\<close>

fun walk :: "node option \<Rightarrow> string list \<Rightarrow> node option" where
  "walk n [] = n"
| "walk n (d # p) = walk (child n d) p"

definition is_dir_at :: "node option \<Rightarrow> string list \<Rightarrow> bool" where
  "is_dir_at n p = (case walk n p of None \<Rightarrow> False | Some t \<Rightarrow> is_dir t)"

fun well_formed :: "node \<Rightarrow> bool" where
  "well_formed (Dir l m sz t r kids) =
     (r \<and> distinct (map fst kids) \<and> list_all (\<lambda>kc. well_formed (snd kc)) kids)"
| "well_formed (File l m t r bs) = True"
| "well_formed Dangling = True"

definition twin_path :: "node option \<Rightarrow> node option \<Rightarrow> string list \<Rightarrow> bool" where
  "twin_path n1 n2 p = (p \<noteq> [] \<and> is_dir_at n1 p \<and> is_dir_at n2 p)"

definition dir_ok :: "node option \<Rightarrow> bool" where
  "dir_ok n = (case n of None \<Rightarrow> False | Some t \<Rightarrow> is_dir t \<and> well_formed t)"

text \<open>The names of \<open>ds\<close>, each followed by the paths \<open>P\<close> gives below it.\<close>

definition blocks :: "(string \<Rightarrow> string list list) \<Rightarrow> string list \<Rightarrow> string list list" where
  "blocks P ds = concat (map (\<lambda>d. [d] # map ((#) d) (P d)) ds)"

text \<open>
  The row-inclusion table as the specification words it, for the options \<open>a\<close>: in the
  last case but one, not identical and not both directories, or metadata that differ.
\<close>

definition spec_row_policy :: "args \<Rightarrow> bool \<Rightarrow> bool \<Rightarrow> bool \<Rightarrow> bool" where
  "spec_row_policy a same_meta exact_data are_both_dirs =
     (if \<not> diff a \<and> \<not> same a then True
      else if same a then (if exact a then same_meta \<and> exact_data else same_meta)
      else if exact a then (\<not> exact_data \<and> \<not> are_both_dirs) \<or> \<not> same_meta
      else \<not> same_meta)"

section \<open>Sample inputs\<close>

text \<open>
  A library to run the program on small inputs: patterns without special characters
  (\<open>literal_findall\<close> finds every place where the pattern stands in the name), sizes and
  times as decimal numbers, a local time that is the time stamp itself.
\<close>

fun decimal :: "nat \<Rightarrow> string" where
  "decimal n =
     (if n < 10 then [''0123456789'' ! n]
      else decimal (n div 10) @ [''0123456789'' ! (n mod 10)])"

declare decimal.simps [simp del]

definition literal_findall :: "string \<Rightarrow> string \<Rightarrow> string list" where
  "literal_findall p name =
     [p. i \<leftarrow> [0..<Suc (length name - length p)], take (length p) (drop i name) = p]"

definition sample_lib :: lib where
  "sample_lib =
     \<lparr>re_compile_I = (\<lambda>p. Some (literal_findall p)),
      format_size = decimal,
      localtime = (\<lambda>t. [t]),
      strftime = (\<lambda>tm. concat (map (\<lambda>i. decimal (nat i)) tm)),
      int_of_str = (\<lambda>v. if v = ''2'' then Some 2 else None),
      DEFAULT_BUFFER_SIZE = 8192\<rparr>"

text \<open>The command line \<^verbatim>\<open>dcmp.py L R\<close>.\<close>

definition no_options :: args where
  "no_options =
     \<lparr>dname1 = ''L'', dname2 = ''R'', recurse = False, threads = None, exact = False,
      ignoredate = False, exdot = False, exdir = None, exfile = None, diff = False,
      same = False, xor = False, one = False, two = False, pgm = None, html = False,
      stats = False, verbose = False\<rparr>"

text \<open>Two directories with a file of the same metadata and other bytes.\<close>

definition bin_left :: node where
  "bin_left = Dir False 493 4096 7 True [(''a.bin'', File False 420 7 True [1, 2, 3])]"

definition bin_right :: node where
  "bin_right = Dir False 493 4096 7 True [(''a.bin'', File False 420 7 True [1, 2, 4])]"

definition bin_meta :: meta where
  "bin_meta = (False, True, False, 420, 3, 7)"

text \<open>A name that is a file on the left and a directory on the right.\<close>

definition kind_left :: node where
  "kind_left = Dir False 493 4096 7 True [(''a'', File False 420 7 True [1])]"

definition kind_right :: node where
  "kind_right = Dir False 493 4096 7 True [(''a'', Dir False 493 4096 7 True [])]"

text \<open>A directory that holds a directory \<^verbatim>\<open>.git\<close> with one file, and an empty one.\<close>

definition git_tree :: node where
  "git_tree = Dir False 493 4096 7 True
     [(''.git'', Dir False 493 4096 7 True [(''a'', File False 420 7 True [1, 2, 3])])]"

definition empty_dir :: node where
  "empty_dir = Dir False 493 4096 7 True []"

text \<open>The object after \<^verbatim>\<open>--exdot --exfile "tmp;bak"\<close>, and after \<^verbatim>\<open>--exdir skip\<close>.\<close>

definition tmp_self :: self where
  "tmp_self =
     (new_self sample_lib (no_options\<lparr>exdot := True, exfile := Some ''tmp;bak''\<rparr>))
       \<lparr>skip_files := [''tmp'', ''bak''],
        re_skip_files := [literal_findall ''tmp'', literal_findall ''bak'']\<rparr>"

definition skip_self :: self where
  "skip_self =
     (new_self sample_lib (no_options\<lparr>exdir := Some ''skip''\<rparr>))
       \<lparr>skip_directories := [''skip''],
        re_skip_directories := [literal_findall ''skip'']\<rparr>"

section \<open>Lemmas\<close>

subsection \<open>Chunks\<close>

lemma chunk_0: "chunk n 0 xs = take n xs"
  by (simp add: chunk_def)

lemma chunk_Suc: "chunk n (Suc j) xs = chunk n j (drop n xs)"
  by (simp add: chunk_def add.commute)

lemma take_drop_eqI:
  assumes "take n xs = take n ys" and "drop n xs = drop n ys"
  shows "xs = ys"
proof -
  have "take n xs @ drop n xs = take n ys @ drop n ys"
    using assms by simp
  then show ?thesis by simp
qed

lemma file_cmp_exact_loop_result:
  "0 < bufsize \<Longrightarrow> fst (file_cmp_exact_loop bufsize fp1 fp2) = (fp1 = fp2)"
proof (induction bufsize fp1 fp2 rule: file_cmp_exact_loop.induct)
  case (1 bufsize fp1 fp2)
  show ?case
  proof (cases "take bufsize fp1 \<noteq> take bufsize fp2")
    case True
    then have "fp1 \<noteq> fp2" by auto
    with True show ?thesis
      by (simp add: file_cmp_exact_loop.simps [of bufsize fp1 fp2])
  next
    case same: False
    show ?thesis
    proof (cases "take bufsize fp1 = []")
      case True
      with same "1.prems" have "fp1 = []" and "fp2 = []" by auto
      with True show ?thesis
        by (simp add: file_cmp_exact_loop.simps [of bufsize "[]" "[]"])
    next
      case False
      with same "1.IH" "1.prems"
      have IH: "fst (file_cmp_exact_loop bufsize (drop bufsize fp1) (drop bufsize fp2))
          = (drop bufsize fp1 = drop bufsize fp2)"
        by simp
      have "(drop bufsize fp1 = drop bufsize fp2) = (fp1 = fp2)"
        using same take_drop_eqI [of bufsize fp1 fp2] by auto
      with IH same False show ?thesis
        by (simp add: file_cmp_exact_loop.simps [of bufsize fp1 fp2] case_prod_beta)
    qed
  qed
qed

lemma file_cmp_exact_loop_reads:
  "0 < bufsize \<Longrightarrow> fp1 \<noteq> fp2 \<Longrightarrow>
   \<exists>k. snd (file_cmp_exact_loop bufsize fp1 fp2) = Suc k
     \<and> chunk bufsize k fp1 \<noteq> chunk bufsize k fp2
     \<and> (\<forall>j<k. chunk bufsize j fp1 = chunk bufsize j fp2)"
proof (induction bufsize fp1 fp2 rule: file_cmp_exact_loop.induct)
  case (1 bufsize fp1 fp2)
  show ?case
  proof (cases "take bufsize fp1 \<noteq> take bufsize fp2")
    case True
    then have "snd (file_cmp_exact_loop bufsize fp1 fp2) = Suc 0"
      by (simp add: file_cmp_exact_loop.simps [of bufsize fp1 fp2])
    with True show ?thesis by (simp add: chunk_0)
  next
    case same: False
    from same "1.prems" have ne: "drop bufsize fp1 \<noteq> drop bufsize fp2"
      using take_drop_eqI [of bufsize fp1 fp2] by auto
    have nonempty: "take bufsize fp1 \<noteq> []"
    proof
      assume "take bufsize fp1 = []"
      with same "1.prems" have "fp1 = []" and "fp2 = []" by auto
      with "1.prems" show False by simp
    qed
    from "1.IH" [OF _ nonempty "1.prems"(1) ne] same
    obtain k where k: "snd (file_cmp_exact_loop bufsize (drop bufsize fp1) (drop bufsize fp2)) = Suc k"
      "chunk bufsize k (drop bufsize fp1) \<noteq> chunk bufsize k (drop bufsize fp2)"
      "\<forall>j<k. chunk bufsize j (drop bufsize fp1) = chunk bufsize j (drop bufsize fp2)"
      by auto
    have "snd (file_cmp_exact_loop bufsize fp1 fp2) = Suc (Suc k)"
      using same nonempty k(1)
      by (simp add: file_cmp_exact_loop.simps [of bufsize fp1 fp2] case_prod_beta)
    moreover have "chunk bufsize (Suc k) fp1 \<noteq> chunk bufsize (Suc k) fp2"
      using k(2) by (simp add: chunk_Suc)
    moreover have "\<forall>j<Suc k. chunk bufsize j fp1 = chunk bufsize j fp2"
    proof (intro allI impI)
      fix j assume "j < Suc k"
      then show "chunk bufsize j fp1 = chunk bufsize j fp2"
        using same k(3) by (cases j) (simp_all add: chunk_0 chunk_Suc)
    qed
    ultimately show ?thesis by blast
  qed
qed

subsection \<open>Exclusion lists\<close>

lemma in_exclusion_list_iff:
  "in_exclusion_list fname re_list = (\<exists>skip \<in> set re_list. skip fname \<noteq> [])"
  by (induction re_list) auto

lemma compile_all_Inr:
  "compile_all L code ps acc = Inr rs \<Longrightarrow>
   \<exists>new. rs = acc @ new \<and> list_all2 (\<lambda>rx p. re_compile_I L p = Some rx) new ps"
proof (induction ps arbitrary: acc)
  case Nil
  then show ?case by simp
next
  case (Cons p ps)
  then obtain rx where rx: "re_compile_I L p = Some rx"
    and rest: "compile_all L code ps (acc @ [rx]) = Inr rs"
    by (auto split: option.splits)
  from Cons.IH [OF rest] obtain new where
    "rs = (acc @ [rx]) @ new" "list_all2 (\<lambda>rx p. re_compile_I L p = Some rx) new ps"
    by blast
  with rx have "rs = acc @ (rx # new)"
    "list_all2 (\<lambda>rx p. re_compile_I L p = Some rx) (rx # new) (p # ps)"
    by simp_all
  then show ?case by blast
qed

lemma init_filters_lists:
  assumes "init_filters L a = Inr s"
  shows "args s = a"
    and "list_all2 (\<lambda>rx p. re_compile_I L p = Some rx) (re_skip_files s) (configured_patterns (exfile a))"
    and "list_all2 (\<lambda>rx p. re_compile_I L p = Some rx) (re_skip_directories s) (configured_patterns (exdir a))"
    and "skip_directories s = configured_patterns (exdir a)"
proof -
  from assms obtain s1 where s1: "init_exdir L (new_self L a) = Inr s1"
    and s: "init_exfile L s1 = Inr s"
    by (auto simp: init_filters_def split: sum.splits)
  have a1: "args s1 = a \<and> re_skip_files s1 = [] \<and> skip_files s1 = []
      \<and> skip_directories s1 = configured_patterns (exdir a)
      \<and> list_all2 (\<lambda>rx p. re_compile_I L p = Some rx) (re_skip_directories s1) (configured_patterns (exdir a))"
  proof (cases "exdir a")
    case None
    with s1 show ?thesis by (auto simp: init_exdir_def new_self_def)
  next
    case (Some v)
    show ?thesis
    proof (cases "v = []")
      case True
      with Some s1 show ?thesis by (auto simp: init_exdir_def new_self_def)
    next
      case False
      with Some s1 obtain rs where rs: "compile_all L 141 (split CHR '';'' v) [] = Inr rs"
        and "s1 = (new_self L a)\<lparr>skip_directories := split CHR '';'' v, re_skip_directories := rs\<rparr>"
        by (auto simp: init_exdir_def new_self_def Let_def split: sum.splits)
      with compile_all_Inr [OF rs] Some False show ?thesis
        by (auto simp: new_self_def)
    qed
  qed
  have a2: "args s = a \<and> re_skip_directories s = re_skip_directories s1
      \<and> skip_directories s = skip_directories s1
      \<and> list_all2 (\<lambda>rx p. re_compile_I L p = Some rx) (re_skip_files s) (configured_patterns (exfile a))"
  proof (cases "exfile a")
    case None
    with s a1 show ?thesis by (auto simp: init_exfile_def)
  next
    case (Some v)
    show ?thesis
    proof (cases "v = []")
      case True
      with Some s a1 show ?thesis by (auto simp: init_exfile_def)
    next
      case False
      with Some s a1 obtain rs where rs: "compile_all L 142 (split CHR '';'' v) [] = Inr rs"
        and "s = s1\<lparr>skip_files := split CHR '';'' v, re_skip_files := rs\<rparr>"
        by (auto simp: init_exfile_def Let_def split: sum.splits)
      with compile_all_Inr [OF rs] Some False a1 show ?thesis
        by auto
    qed
  qed
  from a1 a2 show "args s = a"
    and "list_all2 (\<lambda>rx p. re_compile_I L p = Some rx) (re_skip_files s) (configured_patterns (exfile a))"
    and "list_all2 (\<lambda>rx p. re_compile_I L p = Some rx) (re_skip_directories s) (configured_patterns (exdir a))"
    and "skip_directories s = configured_patterns (exdir a)"
    by simp_all
qed

lemma configured_patterns_truthy: "\<not> truthy v \<Longrightarrow> configured_patterns v = []"
  by (cases v) auto

subsection \<open>Scanning and counting\<close>

lemma scan_only_stderr:
  "scan s dname es d = (r, s') \<Longrightarrow> s' = s\<lparr>stderr := stderr s'\<rparr>"
proof (induction s dname es d rule: scan.induct)
  case (1 s dname d)
  then show ?case by simp
next
  case (2 s dname name f rest d)
  show ?case
  proof (cases "should_not_exclude s name (is_file f) (is_dir f)")
    case (Inl e)
    with "2.prems" show ?thesis by simp
  next
    case (Inr keep)
    show ?thesis
    proof (cases keep)
      case True
      show ?thesis
      proof (cases "stat f")
        case (Inl e)
        with Inr True "2.prems" show ?thesis by simp
      next
        case st: (Inr st)
        obtain mode sz t where "st = (mode, sz, t)" by (cases st)
        with Inr True st "2.prems" "2.IH"(1) show ?thesis by simp
      qed
    next
      case False
      show ?thesis
      proof (cases "verbose (args s)")
        case True
        with Inr False "2.prems" "2.IH"(2)
        have "s' = (s\<lparr>stderr := stderr s @ [excluded_msg dname name f]\<rparr>)\<lparr>stderr := stderr s'\<rparr>"
          by simp
        then show ?thesis by simp
      next
        case nv: False
        with Inr False "2.prems" "2.IH"(3) show ?thesis by simp
      qed
    qed
  qed
qed

lemma incr_apply: "incr k fs k' = (if k' = k then fs k + 1 else fs k')"
  by (simp add: incr_def)

subsection \<open>Paths and twins\<close>

lemma walk_None: "walk None p = None"
  by (induction p) auto

lemma is_dir_at_Nil: "is_dir_at n [] = (case n of None \<Rightarrow> False | Some t \<Rightarrow> is_dir t)"
  by (simp add: is_dir_at_def)

lemma is_dir_at_Cons: "is_dir_at n (d # q) = is_dir_at (child n d) q"
  by (simp add: is_dir_at_def)

lemma child_not_dir: "\<not> is_dir_at n [] \<Longrightarrow> child n d = None"
  by (cases "(n, d)" rule: child.cases) (auto simp: is_dir_at_def)

lemma is_dir_at_root: "is_dir_at n p \<Longrightarrow> is_dir_at n []"
proof (induction p arbitrary: n)
  case Nil
  then show ?case .
next
  case (Cons d q)
  show ?case
  proof (rule ccontr)
    assume "\<not> is_dir_at n []"
    then have "child n d = None" by (rule child_not_dir)
    with Cons.prems show False
      by (simp add: is_dir_at_def walk_None)
  qed
qed

lemma foldl_sub: "foldl sub (a, n) p = (foldl join a p, walk n p)"
  by (induction p arbitrary: a n) (auto simp: sub_def)

lemma gen_folder_dir_ok:
  assumes "dir_ok n"
  shows "\<exists>g. gen_folder n = Inr g \<and> finite g \<and> (\<forall>d. d \<in> g \<longleftrightarrow> dir_ok (child n d))"
proof -
  from assms obtain l m sz t kids where n: "n = Some (Dir l m sz t True kids)"
    and dist: "distinct (map fst kids)" and wf: "list_all (\<lambda>kc. well_formed (snd kc)) kids"
    by (cases n rule: scandir.cases) (auto simp: dir_ok_def)
  let ?g = "set (map fst (filter (\<lambda>f. is_dir (snd f)) kids))"
  have "gen_folder n = Inr ?g" by (simp add: n gen_folder_def)
  moreover have "d \<in> ?g \<longleftrightarrow> dir_ok (child n d)" for d
  proof
    assume "d \<in> ?g"
    then obtain c where c: "(d, c) \<in> set kids" "is_dir c" by auto
    with dist have "map_of kids d = Some c" by simp
    moreover from wf c(1) have "well_formed c" by (auto simp: list_all_iff)
    ultimately show "dir_ok (child n d)" using c(2) by (simp add: n dir_ok_def)
  next
    assume "dir_ok (child n d)"
    then obtain c where "map_of kids d = Some c" "is_dir c"
      by (auto simp: n dir_ok_def split: option.splits)
    then have "(d, c) \<in> set kids" "is_dir c" by (auto dest: map_of_SomeD)
    then show "d \<in> ?g" by force
  qed
  ultimately show ?thesis by blast
qed

lemma dir_ok_is_dir_at: "dir_ok n \<Longrightarrow> is_dir_at n []"
  by (auto simp: dir_ok_def is_dir_at_def split: option.splits)

lemma for_each_Inr:
  "(\<And>d. d \<in> set ds \<Longrightarrow> body d = Inr (f d)) \<Longrightarrow> for_each ds body = Inr (concat (map f ds))"
  by (induction ds) auto

lemma set_blocks: "set (blocks P ds) = {d # q | d q. d \<in> set ds \<and> (q = [] \<or> q \<in> set (P d))}"
  by (auto simp: blocks_def)

lemma sorted_block:
  assumes "sorted qs" and "[] \<notin> set qs"
  shows "sorted ([d] # map ((#) d) qs)"
proof -
  have "sorted (map ((#) d) qs)"
    using assms(1) by (induction qs) (auto simp: sorted_wrt_map)
  then show ?thesis by auto
qed

lemma distinct_block:
  assumes "distinct qs" and "[] \<notin> set qs"
  shows "distinct ([d] # map ((#) d) qs)"
  using assms by (auto simp: distinct_map inj_on_def)

lemma sorted_distinct_blocks:
  assumes "sorted ds" and "distinct ds"
    and "\<And>d. d \<in> set ds \<Longrightarrow> sorted (P d) \<and> distinct (P d) \<and> [] \<notin> set (P d)"
  shows "sorted (blocks P ds) \<and> distinct (blocks P ds)"
  using assms
proof (induction ds)
  case Nil
  then show ?case by (simp add: blocks_def)
next
  case (Cons d ds)
  have b: "blocks P (d # ds) = ([d] # map ((#) d) (P d)) @ blocks P ds"
    by (simp add: blocks_def)
  from Cons have IH: "sorted (blocks P ds)" "distinct (blocks P ds)" by auto
  from Cons.prems have less: "\<forall>e \<in> set ds. d < e" by (auto simp: less_le)
  from Cons.prems(3) [of d] have Pd: "sorted (P d)" "distinct (P d)" "[] \<notin> set (P d)"
    by simp_all
  have head1: "sorted ([d] # map ((#) d) (P d))"
    using Pd(1,3) by (rule sorted_block)
  have head2: "distinct ([d] # map ((#) d) (P d))"
    using Pd(2,3) by (rule distinct_block)
  note head = head1 head2
  have cross: "x < y" if "x \<in> set ([d] # map ((#) d) (P d))" "y \<in> set (blocks P ds)" for x y
  proof -
    from that(1) obtain q where x: "x = d # q" by auto
    from that(2) obtain e r where y: "y = e # r" "e \<in> set ds" by (auto simp: set_blocks)
    with less x show ?thesis by simp
  qed
  have "sorted (blocks P (d # ds))"
    unfolding b sorted_append using head(1) IH(1) cross by (auto simp: less_imp_le)
  moreover have "distinct (blocks P (d # ds))"
    unfolding b distinct_append using head(2) IH(2) cross by (auto simp: less_le)
  ultimately show ?case by simp
qed

lemma snd_sub: "snd (sub dir d) = child (snd dir) d"
  by (simp add: sub_def)

lemma fst_sub: "fst (sub dir d) = join (fst dir) d"
  by (simp add: sub_def)

lemma dir_ok_child:
  assumes "dir_ok n"
  shows "dir_ok (child n d) = is_dir_at (child n d) []"
proof (cases "child n d")
  case None
  then show ?thesis by (simp add: dir_ok_def is_dir_at_def)
next
  case (Some c)
  from assms obtain l m sz t r kids where n: "n = Some (Dir l m sz t r kids)"
    and wf: "list_all (\<lambda>kc. well_formed (snd kc)) kids"
    by (cases n rule: scandir.cases) (auto simp: dir_ok_def)
  from Some n have "(d, c) \<in> set kids" by (auto dest: map_of_SomeD)
  with wf have "well_formed c" by (auto simp: list_all_iff)
  with Some show ?thesis by (simp add: dir_ok_def is_dir_at_def)
qed

lemma twin_path_Cons:
  "twin_path n1 n2 (d # q) =
     (is_dir_at (child n1 d) [] \<and> is_dir_at (child n2 d) []
      \<and> (q = [] \<or> twin_path (child n1 d) (child n2 d) q))"
  by (auto simp: twin_path_def is_dir_at_Cons dest: is_dir_at_root)

lemma find_all_twins_enumerates:
  "dir_ok (snd dir1) \<Longrightarrow> dir_ok (snd dir2) \<Longrightarrow>
   \<exists>ps. find_all_twins dir1 dir2 = Inr (map (\<lambda>p. (foldl sub dir1 p, foldl sub dir2 p)) ps)
      \<and> sorted ps \<and> distinct ps \<and> set ps = {p. twin_path (snd dir1) (snd dir2) p}"
proof (induction dir1 dir2 rule: find_all_twins.induct)
  case (1 dir1 dir2)
  from gen_folder_dir_ok [OF "1.prems"(1)] obtain g1 where
    g1: "gen_folder (snd dir1) = Inr g1" "finite g1" "\<And>d. d \<in> g1 \<longleftrightarrow> dir_ok (child (snd dir1) d)"
    by blast
  from gen_folder_dir_ok [OF "1.prems"(2)] obtain g2 where
    g2: "gen_folder (snd dir2) = Inr g2" "finite g2" "\<And>d. d \<in> g2 \<longleftrightarrow> dir_ok (child (snd dir2) d)"
    by blast
  let ?ds = "sorted_list_of_set (g1 \<inter> g2)"
  let ?F = "\<lambda>p. (foldl sub dir1 p, foldl sub dir2 p)"
  have ds: "set ?ds = g1 \<inter> g2" "sorted ?ds" "distinct ?ds"
    using g1(2) by simp_all
  have "\<forall>d \<in> set ?ds. \<exists>ps.
      find_all_twins (sub dir1 d) (sub dir2 d)
        = Inr (map (\<lambda>p. (foldl sub (sub dir1 d) p, foldl sub (sub dir2 d) p)) ps)
      \<and> sorted ps \<and> distinct ps
      \<and> set ps = {p. twin_path (child (snd dir1) d) (child (snd dir2) d) p}"
  proof
    fix d assume d: "d \<in> set ?ds"
    with ds(1) g1(3) g2(3) have "dir_ok (snd (sub dir1 d))" "dir_ok (snd (sub dir2 d))"
      by (simp_all add: snd_sub)
    from "1.IH" [OF g1(1) g2(1) d this]
    show "\<exists>ps. find_all_twins (sub dir1 d) (sub dir2 d)
        = Inr (map (\<lambda>p. (foldl sub (sub dir1 d) p, foldl sub (sub dir2 d) p)) ps)
      \<and> sorted ps \<and> distinct ps
      \<and> set ps = {p. twin_path (child (snd dir1) d) (child (snd dir2) d) p}"
      by (simp add: snd_sub)
  qed
  then obtain P where P: "\<forall>d \<in> set ?ds.
      find_all_twins (sub dir1 d) (sub dir2 d)
        = Inr (map (\<lambda>p. (foldl sub (sub dir1 d) p, foldl sub (sub dir2 d) p)) (P d))
      \<and> sorted (P d) \<and> distinct (P d)
      \<and> set (P d) = {p. twin_path (child (snd dir1) d) (child (snd dir2) d) p}"
    by (rule bchoice [THEN exE])
  have body: "(case find_all_twins (sub dir1 d) (sub dir2 d) of
                 Inl e \<Rightarrow> Inl e
               | Inr ts \<Rightarrow> Inr ((sub dir1 d, sub dir2 d) # ts))
      = Inr (map ?F ([d] # map ((#) d) (P d)))" if "d \<in> set ?ds" for d
    using P that by (simp add: comp_def)
  have "find_all_twins dir1 dir2 = Inr (concat (map (\<lambda>d. map ?F ([d] # map ((#) d) (P d))) ?ds))"
    by (subst find_all_twins.simps) (simp add: g1(1) g2(1) for_each_Inr [OF body])
  also have "concat (map (\<lambda>d. map ?F ([d] # map ((#) d) (P d))) ?ds) = map ?F (blocks P ?ds)"
    by (simp add: blocks_def map_concat comp_def)
  finally have res: "find_all_twins dir1 dir2 = Inr (map ?F (blocks P ?ds))" .
  have "sorted (blocks P ?ds) \<and> distinct (blocks P ?ds)"
  proof (rule sorted_distinct_blocks [OF ds(2,3)])
    fix d assume "d \<in> set ?ds"
    with P show "sorted (P d) \<and> distinct (P d) \<and> [] \<notin> set (P d)"
      by (simp add: twin_path_def)
  qed
  moreover have "set (blocks P ?ds) = {p. twin_path (snd dir1) (snd dir2) p}"
  proof (rule set_eqI)
    fix p
    show "p \<in> set (blocks P ?ds) \<longleftrightarrow> p \<in> {p. twin_path (snd dir1) (snd dir2) p}"
    proof (cases p)
      case Nil
      then show ?thesis by (simp add: set_blocks twin_path_def)
    next
      case (Cons d q)
      have "p \<in> set (blocks P ?ds) \<longleftrightarrow> d \<in> set ?ds \<and> (q = [] \<or> q \<in> set (P d))"
        by (auto simp: Cons set_blocks)
      also have "\<dots> \<longleftrightarrow> d \<in> set ?ds
          \<and> (q = [] \<or> twin_path (child (snd dir1) d) (child (snd dir2) d) q)"
        using P by auto
      also have "\<dots> \<longleftrightarrow> twin_path (snd dir1) (snd dir2) p"
        using ds(1) g1(3) g2(3) dir_ok_child [OF "1.prems"(1)] dir_ok_child [OF "1.prems"(2)]
        by (auto simp: Cons twin_path_Cons)
      finally show ?thesis by simp
    qed
  qed
  ultimately show ?case using res by blast
qed

lemma less_append_right: "q \<noteq> [] \<Longrightarrow> (p :: string list) < p @ q"
  by (induction p) (auto simp: neq_Nil_conv)

lemma sorted_distinct_index_less:
  assumes "sorted ps" and "i < length ps" and "j < length ps"
    and "(ps ! i :: string list) < ps ! j"
  shows "i < j"
proof (rule ccontr)
  assume "\<not> i < j"
  then have "j \<le> i" by simp
  with assms(1,2) have "ps ! j \<le> ps ! i" by (simp add: sorted_nth_mono)
  with assms(4) show False by simp
qed

subsection \<open>Running the samples\<close>

lemmas sample_defs = new_self_def no_options_def sample_lib_def decimal.simps

lemmas dir_cmp_defs = dir_cmp_def basename_def should_not_exclude_def exclusive_rows_def
  add_exclusive_file_def same_fnames_def d1_only_def d2_only_def keys_def compare_common_def
  exact_step_def sub_def file_cmp_exact_def file_cmp_exact_loop.simps should_add_row_def
  size_cells_def date_cells_def display_time_def join_def Let_def

lemmas init_defs = init_def init_filters_def init_exdir_def init_exfile_def init_threads_def

lemma init_filters_tmp:
  "init_filters sample_lib (no_options\<lparr>exdot := True, exfile := Some ''tmp;bak''\<rparr>) = Inr tmp_self"
  by (simp add: init_filters_def init_exdir_def init_exfile_def new_self_def no_options_def
      sample_lib_def tmp_self_def)

lemma init_filters_skip:
  "init_filters sample_lib (no_options\<lparr>exdir := Some ''skip''\<rparr>) = Inr skip_self"
  by (simp add: init_filters_def init_exdir_def init_exfile_def new_self_def no_options_def
      sample_lib_def skip_self_def)

section \<open>The claims\<close>

text \<open>
  Claim C1, as amended: when a name on both sides gets a row, \<^verbatim>\<open>--stats\<close> is given and the
  two entries are not both directories, exactly one of the counters
  \<^verbatim>\<open>same_meta_different_data\<close>, \<^verbatim>\<open>same_meta\<close> and \<^verbatim>\<open>not_same_meta\<close> goes up by one: the first
  when the metadata are the same and the contents were not found identical, the second
  when the metadata are the same and the contents were found identical, the third when
  the metadata differ. Exactly one of \<^verbatim>\<open>exact_data\<close> and \<^verbatim>\<open>not_exact_data\<close> goes up by one,
  by whether the contents were found identical. No other counter changes.
\<close>

theorem compare_common_counts:
  assumes "map_of d1 fname = Some m1" and "map_of d2 fname = Some m2"
    and "\<not> (recurse (args s) \<and> m_is_dir m1 \<and> m_is_dir m2)"
    and "\<not> (xor (args s) \<or> one (args s) \<or> two (args s))"
    and "exact_step s dir1 dir2 m1 fname = Inr (same_data, exact_data)"
    and "should_add_row s (m1 = m2) same_data (m_is_dir m1 \<and> m_is_dir m2)"
    and "stats (args s)"
    and "\<not> (m_is_dir m1 \<and> m_is_dir m2)"
    and "compare_common L dir1 dir2 d1 d2 fname x s = (r, s')"
  shows "file_stats s' ''same_meta_different_data'' = file_stats s ''same_meta_different_data''
          + (if m1 = m2 \<and> \<not> cell_true exact_data then 1 else 0)
    \<and> file_stats s' ''same_meta'' = file_stats s ''same_meta''
          + (if m1 = m2 \<and> cell_true exact_data then 1 else 0)
    \<and> file_stats s' ''not_same_meta'' = file_stats s ''not_same_meta''
          + (if m1 \<noteq> m2 then 1 else 0)
    \<and> file_stats s' ''exact_data'' = file_stats s ''exact_data''
          + (if cell_true exact_data then 1 else 0)
    \<and> file_stats s' ''not_exact_data'' = file_stats s ''not_exact_data''
          + (if \<not> cell_true exact_data then 1 else 0)
    \<and> (\<forall>k. k \<notin> {''same_meta_different_data'', ''same_meta'', ''not_same_meta'',
                  ''exact_data'', ''not_exact_data''} \<longrightarrow> file_stats s' k = file_stats s k)"
proof -
  from assms have s': "file_stats s' = count_stats (m1 = m2) exact_data (file_stats s)"
    by (auto simp: compare_common_def Let_def split: if_splits)
  show ?thesis unfolding s'
    by (simp add: count_stats_def Let_def incr_apply)
qed

text \<open>The theorem at the sample with the same metadata and other bytes.\<close>

theorem compare_common_counts_witness:
  "map_of [(''a.bin'', bin_meta)] ''a.bin'' = Some bin_meta
   \<and> exact_step (new_self sample_lib (no_options\<lparr>exact := True, stats := True\<rparr>))
        (''L'', Some bin_left) (''R'', Some bin_right) bin_meta ''a.bin'' = Inr (False, Compared False)
   \<and> should_add_row (new_self sample_lib (no_options\<lparr>exact := True, stats := True\<rparr>))
        (bin_meta = bin_meta) False (m_is_dir bin_meta \<and> m_is_dir bin_meta)
   \<and> stats (args (new_self sample_lib (no_options\<lparr>exact := True, stats := True\<rparr>)))
   \<and> file_stats (snd (compare_common sample_lib (''L'', Some bin_left) (''R'', Some bin_right)
        [(''a.bin'', bin_meta)] [(''a.bin'', bin_meta)] ''a.bin'' []
        (new_self sample_lib (no_options\<lparr>exact := True, stats := True\<rparr>))))
        ''same_meta_different_data'' = 1
   \<and> file_stats (snd (compare_common sample_lib (''L'', Some bin_left) (''R'', Some bin_right)
        [(''a.bin'', bin_meta)] [(''a.bin'', bin_meta)] ''a.bin'' []
        (new_self sample_lib (no_options\<lparr>exact := True, stats := True\<rparr>))))
        ''same_meta'' = 0
   \<and> file_stats (snd (compare_common sample_lib (''L'', Some bin_left) (''R'', Some bin_right)
        [(''a.bin'', bin_meta)] [(''a.bin'', bin_meta)] ''a.bin'' []
        (new_self sample_lib (no_options\<lparr>exact := True, stats := True\<rparr>))))
        ''not_exact_data'' = 1"
  using compare_common_counts [of "[(''a.bin'', bin_meta)]" "''a.bin''" bin_meta
      "[(''a.bin'', bin_meta)]" bin_meta
      "new_self sample_lib (no_options\<lparr>exact := True, stats := True\<rparr>)"
      "(''L'', Some bin_left)" "(''R'', Some bin_right)" False "Compared False" sample_lib "[]"
      "fst (compare_common sample_lib (''L'', Some bin_left) (''R'', Some bin_right)
        [(''a.bin'', bin_meta)] [(''a.bin'', bin_meta)] ''a.bin'' []
        (new_self sample_lib (no_options\<lparr>exact := True, stats := True\<rparr>)))"
      "snd (compare_common sample_lib (''L'', Some bin_left) (''R'', Some bin_right)
        [(''a.bin'', bin_meta)] [(''a.bin'', bin_meta)] ''a.bin'' []
        (new_self sample_lib (no_options\<lparr>exact := True, stats := True\<rparr>)))"]
  by (simp add: exact_step_def sub_def file_cmp_exact_def file_cmp_exact_loop.simps
      should_add_row_def new_self_def no_options_def sample_lib_def bin_left_def bin_right_def
      bin_meta_def)

text \<open>
  Claim C1 as stated fails: \<^verbatim>\<open>dcmp.py --exact --stats L R\<close> on the sample shows the row of
  \<^verbatim>\<open>a.bin\<close> with the same metadata and contents that differ; the counter
  \<^verbatim>\<open>same_meta_different_data\<close> is 1 afterwards, and \<^verbatim>\<open>same_meta\<close> is still 0.
\<close>

theorem same_meta_not_counted:
  "fst (dir_cmp sample_lib (new_self sample_lib (no_options\<lparr>exact := True, stats := True\<rparr>))
         (''L'', Some bin_left) (''R'', Some bin_right))
     = Inr (Triple [(''a.bin'', Meta True, ''3'', ''3'', ''7'', ''7'', Compared False)] ''L'' ''R'')
   \<and> file_stats (snd (dir_cmp sample_lib
          (new_self sample_lib (no_options\<lparr>exact := True, stats := True\<rparr>))
          (''L'', Some bin_left) (''R'', Some bin_right))) ''same_meta'' = 0
   \<and> file_stats (snd (dir_cmp sample_lib
          (new_self sample_lib (no_options\<lparr>exact := True, stats := True\<rparr>))
          (''L'', Some bin_left) (''R'', Some bin_right))) ''same_meta_different_data'' = 1"
  by (simp add: sample_defs dir_cmp_defs bin_left_def bin_right_def count_stats_def incr_def)

text \<open>
  Claim C2 fails on the code: under \<^verbatim>\<open>--exact\<close>, for a name that is a file on the left and
  a directory on the right, \<^verbatim>\<open>file_cmp_exact\<close> is called and opening the directory raises.
  With the sides exchanged the contents are not compared and the row is shown.
\<close>

theorem exact_compare_right_directory:
  "fst (dir_cmp sample_lib (new_self sample_lib (no_options\<lparr>exact := True\<rparr>))
         (''L'', Some kind_left) (''R'', Some kind_right)) = Inl IsADirectoryError
   \<and> fst (dir_cmp sample_lib (new_self sample_lib (no_options\<lparr>exact := True\<rparr>))
         (''R'', Some kind_right) (''L'', Some kind_left))
     = Inr (Triple [(''a'', Meta False, ''<DIR>'', ''1'', ''7'', ''7'', NotCompared)] ''R'' ''L'')"
  by (simp add: sample_defs dir_cmp_defs kind_left_def kind_right_def)

text \<open>
  Claim C3 fails on the code: on two trees that hold \<^verbatim>\<open>.git/a\<close>, \<^verbatim>\<open>dcmp.py --recurse L R\<close>
  ends normally and shows the row of \<^verbatim>\<open>a\<close> in \<^verbatim>\<open>.git\<close>; with \<^verbatim>\<open>--threads 2\<close> added the
  pair of the two \<^verbatim>\<open>.git\<close> is registered, the run raises \<^verbatim>\<open>TypeError\<close> and has shown no row.
  With \<^verbatim>\<open>--exdot\<close> added to both, the run without \<^verbatim>\<open>--threads\<close> leaves \<^verbatim>\<open>.git\<close> out and
  ends normally; the run with it registers the pair all the same and raises.
\<close>

theorem schedulers_differ_on_subdirectory:
  "fst (init sample_lib (no_options\<lparr>recurse := True\<rparr>) (Some git_tree) (Some git_tree)) = Inr ()
   \<and> outputs (snd (init sample_lib (no_options\<lparr>recurse := True\<rparr>)
        (Some git_tree) (Some git_tree)))
      = [([], ''L'', ''R''),
         ([(''a'', Meta True, ''3'', ''3'', ''7'', ''7'', NotCompared)], ''L/.git'', ''R/.git'')]
   \<and> find_all_twins (''L'', Some git_tree) (''R'', Some git_tree)
      = Inr [((''L/.git'', Some (Dir False 493 4096 7 True [(''a'', File False 420 7 True [1, 2, 3])])),
              (''R/.git'', Some (Dir False 493 4096 7 True [(''a'', File False 420 7 True [1, 2, 3])])))]
   \<and> fst (init sample_lib (no_options\<lparr>recurse := True, threads := Some ''2''\<rparr>)
        (Some git_tree) (Some git_tree)) = Inl TypeError
   \<and> outputs (snd (init sample_lib (no_options\<lparr>recurse := True, threads := Some ''2''\<rparr>)
        (Some git_tree) (Some git_tree))) = [([], ''L'', ''R'')]
   \<and> mset (rows (snd (init sample_lib (no_options\<lparr>recurse := True\<rparr>)
        (Some git_tree) (Some git_tree))))
      \<noteq> mset (rows (snd (init sample_lib (no_options\<lparr>recurse := True, threads := Some ''2''\<rparr>)
        (Some git_tree) (Some git_tree))))
   \<and> init sample_lib (no_options\<lparr>recurse := True, exdot := True\<rparr>) (Some git_tree) (Some git_tree)
     = (Inr (), (new_self sample_lib (no_options\<lparr>recurse := True, exdot := True\<rparr>))
                  \<lparr>outputs := [([], ''L'', ''R'')]\<rparr>)
   \<and> fst (init sample_lib (no_options\<lparr>recurse := True, exdot := True, threads := Some ''2''\<rparr>)
        (Some git_tree) (Some git_tree)) = Inl TypeError"
  by (simp add: init_defs sample_defs dir_cmp_defs git_tree_def seq_loop.simps
      find_all_twins.simps gen_folder_def rows_def)

text \<open>
  Claim C4: with a buffer of at least one byte, \<^verbatim>\<open>file_cmp_exact\<close> on two readable files
  returns whether their bytes are the same; when they differ, the loop stops right after
  the first pair of chunks that differ, having read no pair beyond it.
\<close>

theorem file_cmp_exact_correct:
  assumes "0 < bufsize"
  shows "file_cmp_exact bufsize (Some (File l1 m1 t1 True fp1)) (Some (File l2 m2 t2 True fp2))
      = Inr (fp1 = fp2)
    \<and> (fp1 \<noteq> fp2 \<longrightarrow>
        (\<exists>k. snd (file_cmp_exact_loop bufsize fp1 fp2) = Suc k
           \<and> chunk bufsize k fp1 \<noteq> chunk bufsize k fp2
           \<and> (\<forall>j<k. chunk bufsize j fp1 = chunk bufsize j fp2)))"
  using assms file_cmp_exact_loop_result [of bufsize fp1 fp2]
    file_cmp_exact_loop_reads [of bufsize fp1 fp2]
  by (simp add: file_cmp_exact_def)

text \<open>The theorem on two files of five bytes, read two bytes at a time.\<close>

theorem file_cmp_exact_correct_witness:
  "(0::nat) < 2
   \<and> file_cmp_exact 2 (Some (File False 420 7 True [1, 2, 3, 4, 5]))
        (Some (File False 420 7 True [1, 2, 3, 9, 5])) = Inr False
   \<and> file_cmp_exact 2 (Some (File False 420 7 True [1, 2, 3, 4, 5]))
        (Some (File True 384 9 True [1, 2, 3, 4, 5])) = Inr True
   \<and> snd (file_cmp_exact_loop 2 [1, 2, 3, 4, 5] [1, 2, 3, 9, 5]) = 2
   \<and> chunk 2 1 [1, 2, 3, 4, 5] \<noteq> chunk 2 1 [1, 2, 3, 9, 5]
   \<and> chunk 2 0 [1, 2, 3, 4, 5] = chunk 2 0 [1, 2, 3, 9, 5]"
  using file_cmp_exact_correct [of 2 False 420 7 "[1, 2, 3, 4, 5]" False 420 7 "[1, 2, 3, 9, 5]"]
    file_cmp_exact_correct [of 2 False 420 7 "[1, 2, 3, 4, 5]" True 384 9 "[1, 2, 3, 4, 5]"]
  by (simp add: file_cmp_exact_loop.simps chunk_def)

text \<open>
  Claim C5, as amended: with at most one of \<^verbatim>\<open>--diff\<close> and \<^verbatim>\<open>--same\<close>, a row is shown
  always without either; under \<^verbatim>\<open>--same\<close> when the metadata are the same, and with
  \<^verbatim>\<open>--exact\<close> also the contents; under \<^verbatim>\<open>--diff\<close> without \<^verbatim>\<open>--exact\<close> when the metadata
  differ; under \<^verbatim>\<open>--diff\<close> with \<^verbatim>\<open>--exact\<close> when the contents were not found identical and
  the entries are not both directories, or the contents were found identical and the
  metadata differ.
\<close>

theorem should_add_row_policy:
  assumes "\<not> (diff (args s) \<and> same (args s))"
  shows "should_add_row s same_meta same_data are_both_dirs =
     (if \<not> diff (args s) \<and> \<not> same (args s) then True
      else if same (args s) then (if exact (args s) then same_meta \<and> same_data else same_meta)
      else if exact (args s) then (\<not> same_data \<and> \<not> are_both_dirs) \<or> (same_data \<and> \<not> same_meta)
      else \<not> same_meta)"
  using assms by (auto simp: should_add_row_def)

text \<open>The theorem under \<^verbatim>\<open>--diff --exact\<close>.\<close>

theorem should_add_row_policy_witness:
  "\<not> (diff (args (new_self sample_lib (no_options\<lparr>diff := True, exact := True\<rparr>)))
       \<and> same (args (new_self sample_lib (no_options\<lparr>diff := True, exact := True\<rparr>))))
   \<and> should_add_row (new_self sample_lib (no_options\<lparr>diff := True, exact := True\<rparr>))
        False True False
   \<and> \<not> should_add_row (new_self sample_lib (no_options\<lparr>diff := True, exact := True\<rparr>))
        False False True"
  using should_add_row_policy
      [of "new_self sample_lib (no_options\<lparr>diff := True, exact := True\<rparr>)" False True False]
    should_add_row_policy
      [of "new_self sample_lib (no_options\<lparr>diff := True, exact := True\<rparr>)" False False True]
  by (simp add: new_self_def no_options_def)

text \<open>
  Claim C5 as stated fails: under \<^verbatim>\<open>--diff --exact\<close>, two directories whose metadata
  differ get no row, where the table of the specification shows one.
\<close>

theorem should_add_row_directory_pair:
  "should_add_row (new_self sample_lib (no_options\<lparr>diff := True, exact := True\<rparr>))
      False False True
     \<noteq> spec_row_policy (no_options\<lparr>diff := True, exact := True\<rparr>) False False True"
  by (simp add: should_add_row_def spec_row_policy_def new_self_def no_options_def)

text \<open>
  Claim C6: the names on both sides, on the left only and on the right only are pairwise
  disjoint, and together they are the names of the two scans.
\<close>

theorem three_sets_partition:
  "same_fnames d1 d2 \<inter> d1_only d1 d2 = {}
   \<and> same_fnames d1 d2 \<inter> d2_only d1 d2 = {}
   \<and> d1_only d1 d2 \<inter> d2_only d1 d2 = {}
   \<and> same_fnames d1 d2 \<union> d1_only d1 d2 \<union> d2_only d1 d2 = keys d1 \<union> keys d2"
  by (auto simp: same_fnames_def d1_only_def d2_only_def)

text \<open>
  Claim C7: after \<^verbatim>\<open>__init__\<close> has built the lists, for an entry with a name that is a
  file, a directory or neither: under \<^verbatim>\<open>--exdot\<close> a name that starts with a dot is
  excluded; otherwise a file is excluded when one of the file patterns is found in its
  name; otherwise a directory is excluded when one of the directory patterns is found in
  its name; every other entry is kept. The patterns are the configured strings, each
  compiled ignoring case.
\<close>

theorem should_not_exclude_order:
  assumes "init_filters L a = Inr s"
    and "obj_name \<noteq> []"
    and "\<not> (isfile \<and> isdir)"
  shows "should_not_exclude s obj_name isfile isdir =
      Inr (if exdot a \<and> hd obj_name = CHR ''.'' then False
           else if isfile \<and> (\<exists>rx \<in> set (re_skip_files s). rx obj_name \<noteq> []) then False
           else if isdir \<and> (\<exists>rx \<in> set (re_skip_directories s). rx obj_name \<noteq> []) then False
           else True)
    \<and> list_all2 (\<lambda>rx p. re_compile_I L p = Some rx) (re_skip_files s) (configured_patterns (exfile a))
    \<and> list_all2 (\<lambda>rx p. re_compile_I L p = Some rx) (re_skip_directories s) (configured_patterns (exdir a))"
proof -
  note lists = init_filters_lists [OF assms(1)]
  have nf: "truthy (exfile a) \<or> re_skip_files s = []"
    using lists(2) by (cases "truthy (exfile a)") (simp_all add: configured_patterns_truthy)
  have nd: "truthy (exdir a) \<or> re_skip_directories s = []"
    using lists(3) by (cases "truthy (exdir a)") (simp_all add: configured_patterns_truthy)
  have "should_not_exclude s obj_name isfile isdir =
      Inr (if exdot a \<and> hd obj_name = CHR ''.'' then False
           else if isfile \<and> (\<exists>rx \<in> set (re_skip_files s). rx obj_name \<noteq> []) then False
           else if isdir \<and> (\<exists>rx \<in> set (re_skip_directories s). rx obj_name \<noteq> []) then False
           else True)"
    using assms(2,3) lists(1) nf nd
    by (auto simp: should_not_exclude_def in_exclusion_list_iff)
  with lists(2,3) show ?thesis by simp
qed

text \<open>The theorem after \<^verbatim>\<open>--exdot --exfile "tmp;bak"\<close>.\<close>

theorem should_not_exclude_order_witness:
  "init_filters sample_lib (no_options\<lparr>exdot := True, exfile := Some ''tmp;bak''\<rparr>) = Inr tmp_self
   \<and> ''x.bak'' \<noteq> [] \<and> \<not> (True \<and> False)
   \<and> should_not_exclude tmp_self ''x.bak'' True False = Inr False
   \<and> should_not_exclude tmp_self ''x.bak'' False True = Inr True
   \<and> should_not_exclude tmp_self ''.x'' False True = Inr False
   \<and> should_not_exclude tmp_self ''x.txt'' True False = Inr True"
  using should_not_exclude_order [OF init_filters_tmp, of "''x.bak''" True False]
    should_not_exclude_order [OF init_filters_tmp, of "''x.bak''" False True]
    should_not_exclude_order [OF init_filters_tmp, of "''.x''" False True]
    should_not_exclude_order [OF init_filters_tmp, of "''x.txt''" True False]
    init_filters_tmp
  by (simp add: tmp_self_def new_self_def no_options_def literal_findall_def)

text \<open>
  Claim C8: for two directories whose trees can be listed, \<^verbatim>\<open>find_all_twins\<close> returns the
  pairs of all relative paths of one name or more that lead to a directory on both
  sides, whatever the exclusion options are; each path once, in the lexicographic order
  of the paths, so that a pair comes before all pairs below it.
\<close>

theorem find_all_twins_complete:
  assumes "is_dir t1" and "well_formed t1" and "is_dir t2" and "well_formed t2"
  shows "\<exists>ps. find_all_twins (left, Some t1) (right, Some t2)
        = Inr (map (\<lambda>p. ((foldl join left p, walk (Some t1) p),
                          (foldl join right p, walk (Some t2) p))) ps)
      \<and> sorted ps \<and> distinct ps
      \<and> set ps = {p. twin_path (Some t1) (Some t2) p}
      \<and> (\<forall>i j q. i < length ps \<and> j < length ps \<and> q \<noteq> [] \<and> ps ! j = ps ! i @ q \<longrightarrow> i < j)"
proof -
  from assms have "dir_ok (snd (left, Some t1))" "dir_ok (snd (right, Some t2))"
    by (simp_all add: dir_ok_def)
  from find_all_twins_enumerates [OF this] obtain ps where
    ps: "find_all_twins (left, Some t1) (right, Some t2)
        = Inr (map (\<lambda>p. (foldl sub (left, Some t1) p, foldl sub (right, Some t2) p)) ps)"
      "sorted ps" "distinct ps" "set ps = {p. twin_path (Some t1) (Some t2) p}"
    by auto
  have "i < j" if "i < length ps" "j < length ps" "q \<noteq> []" "ps ! j = ps ! i @ q" for i j q
  proof -
    from that(3,4) have "ps ! i < ps ! j" by (simp add: less_append_right)
    with ps(2) that(1,2) show ?thesis by (rule sorted_distinct_index_less)
  qed
  with ps show ?thesis by (auto simp: foldl_sub)
qed

text \<open>The theorem on the sample with \<^verbatim>\<open>.git\<close> on both sides.\<close>

theorem find_all_twins_complete_witness:
  "is_dir git_tree \<and> well_formed git_tree
   \<and> find_all_twins (''L'', Some git_tree) (''R'', Some git_tree)
      = Inr [((''L/.git'', walk (Some git_tree) [''.git'']),
              (''R/.git'', walk (Some git_tree) [''.git'']))]
   \<and> twin_path (Some git_tree) (Some git_tree) [''.git'']"
  using find_all_twins_complete [of git_tree git_tree "''L''" "''R''"]
  by (simp add: git_tree_def find_all_twins.simps gen_folder_def sub_def join_def twin_path_def
      is_dir_at_def)

text \<open>
  Claim C9: when \<^verbatim>\<open>os.scandir\<close> fails on the first directory, \<^verbatim>\<open>dir_cmp\<close> raises that
  error and the object is as before; when it fails on the second, after the first was
  scanned, \<^verbatim>\<open>dir_cmp\<close> raises that error and nothing but what was printed has changed:
  no row, no counter, no queued pair. The loop over the queue, which calls \<^verbatim>\<open>dir_cmp\<close>
  for a pair it took, ends with the error \<^verbatim>\<open>dir_cmp\<close> raised.
\<close>

theorem dir_cmp_scan_error:
  assumes "basename (fst dir1) \<notin> set (skip_directories s)"
    and "basename (fst dir2) \<notin> set (skip_directories s)"
  shows "(scandir (snd dir1) = Inl e \<longrightarrow> dir_cmp L s dir1 dir2 = (Inl e, s))
    \<and> (scandir (snd dir1) = Inr entries1 \<and> scan s (fst dir1) entries1 [] = (Inr d1, s1)
         \<and> scandir (snd dir2) = Inl e \<longrightarrow>
        dir_cmp L s dir1 dir2 = (Inl e, s1) \<and> file_stats s1 = file_stats s
        \<and> dir_queue s1 = dir_queue s \<and> output_files s1 = output_files s
        \<and> outputs s1 = outputs s)
    \<and> (dir_cmp L s dir1 dir2 = (Inl e, s1) \<longrightarrow>
        seq_loop L (s\<lparr>dir_queue := (dir1, dir2) # dir_queue s\<rparr>) = (Inl e, s1))"
proof -
  have loop: "seq_loop L (s\<lparr>dir_queue := (dir1, dir2) # dir_queue s\<rparr>) = (Inl e, s1)"
    if "dir_cmp L s dir1 dir2 = (Inl e, s1)"
    using that by (simp add: seq_loop.simps [of L "s\<lparr>dir_queue := (dir1, dir2) # dir_queue s\<rparr>"])
  have "file_stats s1 = file_stats s \<and> dir_queue s1 = dir_queue s
      \<and> output_files s1 = output_files s \<and> outputs s1 = outputs s"
    if "scan s (fst dir1) entries1 [] = (Inr d1, s1)"
  proof -
    from scan_only_stderr [OF that] have "s1 = s\<lparr>stderr := stderr s1\<rparr>" .
    then have "file_stats s1 = file_stats (s\<lparr>stderr := stderr s1\<rparr>)"
      "dir_queue s1 = dir_queue (s\<lparr>stderr := stderr s1\<rparr>)"
      "output_files s1 = output_files (s\<lparr>stderr := stderr s1\<rparr>)"
      "outputs s1 = outputs (s\<lparr>stderr := stderr s1\<rparr>)"
      by simp_all
    then show ?thesis by simp
  qed
  with assms loop show ?thesis by (auto simp: dir_cmp_def)
qed

text \<open>The theorem on a left name that is not there, and on a right name that is a file.\<close>

theorem dir_cmp_scan_error_witness:
  "basename ''L'' \<notin> set (skip_directories (new_self sample_lib no_options))
   \<and> basename ''R'' \<notin> set (skip_directories (new_self sample_lib no_options))
   \<and> scandir None = Inl FileNotFoundError
   \<and> dir_cmp sample_lib (new_self sample_lib no_options) (''L'', None) (''R'', Some git_tree)
       = (Inl FileNotFoundError, new_self sample_lib no_options)
   \<and> scandir (Some git_tree)
       = Inr [(''.git'', Dir False 493 4096 7 True [(''a'', File False 420 7 True [1, 2, 3])])]
   \<and> scandir (Some (File False 420 7 True [1])) = Inl NotADirectoryError
   \<and> dir_cmp sample_lib (new_self sample_lib no_options) (''L'', Some git_tree)
        (''R'', Some (File False 420 7 True [1]))
       = (Inl NotADirectoryError, new_self sample_lib no_options)
   \<and> seq_loop sample_lib ((new_self sample_lib no_options)
        \<lparr>dir_queue := [((''L'', None), (''R'', Some git_tree))]\<rparr>)
       = (Inl FileNotFoundError, new_self sample_lib no_options)"
  using dir_cmp_scan_error [of "(''L'', None)" "new_self sample_lib no_options"
      "(''R'', Some git_tree)" FileNotFoundError sample_lib]
    dir_cmp_scan_error [of "(''L'', Some git_tree)" "new_self sample_lib no_options"
      "(''R'', Some (File False 420 7 True [1]))" NotADirectoryError sample_lib
      "[(''.git'', Dir False 493 4096 7 True [(''a'', File False 420 7 True [1, 2, 3])])]"
      "[(''.git'', (True, False, False, 493, 4096, 7))]" "new_self sample_lib no_options"]
  by (simp add: basename_def new_self_def no_options_def git_tree_def should_not_exclude_def)

text \<open>
  Claim C10: when the last component of one of the two names is a member of
  \<^verbatim>\<open>skip_directories\<close>, as a string, \<^verbatim>\<open>dir_cmp\<close> returns the empty table alone and the
  object is as before, whatever the names resolve to; otherwise what it returns, when it
  returns, is the table together with the two names.
\<close>

theorem dir_cmp_skipped:
  "(basename (fst dir1) \<in> set (skip_directories s) \<or> basename (fst dir2) \<in> set (skip_directories s)
      \<longrightarrow> dir_cmp L s dir1 dir2 = (Inr (Table []), s))
   \<and> (\<not> (basename (fst dir1) \<in> set (skip_directories s) \<or> basename (fst dir2) \<in> set (skip_directories s))
      \<longrightarrow> (\<forall>r. fst (dir_cmp L s dir1 dir2) = Inr r \<longrightarrow>
            (\<exists>x. r = Triple x (fst dir1) (fst dir2))))"
  by (auto simp: dir_cmp_def split: sum.splits prod.splits)

text \<open>
  The theorem after \<^verbatim>\<open>--exdir skip\<close>: \<^verbatim>\<open>L/skip\<close> is not scanned, and \<^verbatim>\<open>L/skipper\<close>, in
  whose name the pattern is found, is compared.
\<close>

theorem dir_cmp_skipped_witness:
  "init_filters sample_lib (no_options\<lparr>exdir := Some ''skip''\<rparr>) = Inr skip_self
   \<and> basename ''L/skip'' \<in> set (skip_directories skip_self)
   \<and> dir_cmp sample_lib skip_self (''L/skip'', None) (''R/skip'', None) = (Inr (Table []), skip_self)
   \<and> basename ''L/skipper'' \<notin> set (skip_directories skip_self)
   \<and> basename ''R/skipper'' \<notin> set (skip_directories skip_self)
   \<and> in_exclusion_list ''skipper'' (re_skip_directories skip_self)
   \<and> fst (dir_cmp sample_lib skip_self (''L/skipper'', Some empty_dir)
        (''R/skipper'', Some empty_dir)) = Inr (Triple [] ''L/skipper'' ''R/skipper'')"
  using dir_cmp_skipped [of "(''L/skip'', None)" skip_self "(''R/skip'', None)" sample_lib]
    dir_cmp_skipped [of "(''L/skipper'', Some empty_dir)" skip_self
      "(''R/skipper'', Some empty_dir)" sample_lib]
    init_filters_skip
  by (simp add: skip_self_def sample_defs dir_cmp_defs empty_dir_def literal_findall_def)

end
